theory Spec2Isabelle
  imports Main
begin

section \<open>JavaScript strings and arrays\<close>

text \<open>
  A JavaScript string is modelled as a \<open>string\<close> (a list of \<open>char\<close>); the characters
  the code inspects (the separator \<open>/\<close>, the dot, the letters of the script extensions and
  the line terminators LF and CR) are all single \<open>char\<close>s. The two other line terminators
  of JavaScript, U+2028 and U+2029, lie outside \<open>char\<close> and are not modelled.

  \<open>join sep xs\<close> is \<open>Array.prototype.join\<close>: the elements separated by \<open>sep\<close>, the empty
  string for the empty array.
\<close>

fun join :: "string \<Rightarrow> string list \<Rightarrow> string" where
  "join sep [] = []"
| "join sep [x] = x"
| "join sep (x # y # ys) = x @ sep @ join sep (y # ys)"

text \<open>\<open>split_on c s\<close> is \<open>s.split(c)\<close>: the pieces between the occurrences of \<open>c\<close>.\<close>

fun split_on :: "char \<Rightarrow> string \<Rightarrow> string list" where
  "split_on c [] = [[]]"
| "split_on c (x # xs) =
     (if x = c then [] # split_on c xs
      else (case split_on c xs of [] \<Rightarrow> [[x]] | y # ys \<Rightarrow> (x # y) # ys))"

text \<open>\<open>starts_with s p\<close> is \<open>s.startsWith(p)\<close>; \<open>includes_str s p\<close> is \<open>s.includes(p)\<close>.\<close>

definition starts_with :: "string \<Rightarrow> string \<Rightarrow> bool" where
  "starts_with s p = (take (length p) s = p)"

fun includes_str :: "string \<Rightarrow> string \<Rightarrow> bool" where
  "includes_str [] p = (p = [])"
| "includes_str (c # cs) p = (starts_with (c # cs) p \<or> includes_str cs p)"

section \<open>The path module of Node (POSIX flavour)\<close>

text \<open>
  The source calls \<open>parse\<close>, \<open>normalize\<close> (here \<open>normalize_path\<close>), \<open>resolve\<close> and \<open>relative\<close>
  of Node's \<open>path\<close> module. They are library code; the model below follows the library's algorithm on the
  components of a path (the non-empty pieces between separators).
\<close>

definition is_absolute :: "string \<Rightarrow> bool" where
  "is_absolute p = (case p of [] \<Rightarrow> False | c # _ \<Rightarrow> c = CHR ''/'')"

definition segments :: "string \<Rightarrow> string list" where
  "segments p = filter (\<lambda>s. s \<noteq> []) (split_on (CHR ''/'') p)"

text \<open>
  \<open>normalizeString\<close> of the library: empty components and \<open>.\<close> are dropped, \<open>..\<close> removes
  the component before it; where there is none (or it is itself \<open>..\<close>) the \<open>..\<close> is kept
  when the path may climb above its start, and dropped otherwise.
\<close>

fun normalizeString :: "bool \<Rightarrow> string list \<Rightarrow> string list \<Rightarrow> string list" where
  "normalizeString allowAboveRoot res [] = res"
| "normalizeString allowAboveRoot res (s # ss) =
     (if s = [] \<or> s = ''.'' then normalizeString allowAboveRoot res ss
      else if s = ''..'' then
        (if res \<noteq> [] \<and> last res \<noteq> ''..'' then normalizeString allowAboveRoot (butlast res) ss
         else if allowAboveRoot then normalizeString allowAboveRoot (res @ [''..'']) ss
         else normalizeString allowAboveRoot res ss)
      else normalizeString allowAboveRoot (res @ [s]) ss)"

definition normalize_path :: "string \<Rightarrow> string" where
  "normalize_path p =
     (if p = [] then ''.''
      else
        let isAbsolute = is_absolute p;
            trailingSeparator = (last p = CHR ''/'');
            q = join ''/'' (normalizeString (\<not> isAbsolute) [] (segments p))
        in if q = [] then (if isAbsolute then ''/'' else if trailingSeparator then ''./'' else ''.'')
           else (if isAbsolute then ''/'' else []) @ q @ (if trailingSeparator then ''/'' else []))"

text \<open>
  \<open>resolve\<close> reads its arguments from the right until one is absolute, and falls back on
  the working directory of the process (\<open>pcwd\<close>, the value of \<open>process.cwd()\<close>).
\<close>

fun resolve_args :: "string list \<Rightarrow> string list" where
  "resolve_args [] = []"
| "resolve_args (p # ps) = (if list_ex is_absolute ps then resolve_args ps else p # ps)"

definition resolve_segs :: "string \<Rightarrow> string list \<Rightarrow> string list" where
  "resolve_segs pcwd args =
     (let ps = resolve_args (pcwd # args)
      in normalizeString (\<not> list_ex is_absolute ps) [] (concat (map segments ps)))"

definition resolve :: "string \<Rightarrow> string list \<Rightarrow> string" where
  "resolve pcwd args =
     (let segs = resolve_segs pcwd args
      in if list_ex is_absolute (resolve_args (pcwd # args)) then CHR ''/'' # join ''/'' segs
         else if segs = [] then ''.'' else join ''/'' segs)"

fun strip_common :: "string list \<Rightarrow> string list \<Rightarrow> string list \<times> string list" where
  "strip_common (x # xs) (y # ys) = (if x = y then strip_common xs ys else (x # xs, y # ys))"
| "strip_common xs ys = (xs, ys)"

definition relative :: "string \<Rightarrow> string \<Rightarrow> string \<Rightarrow> string" where
  "relative pcwd from to =
     (if from = to then []
      else
        let f = resolve pcwd [from]; t = resolve pcwd [to]
        in if f = t then []
           else (case strip_common (segments f) (segments t) of
                   (f', t') \<Rightarrow> join ''/'' (replicate (length f') ''..'' @ t')))"

record ParsedPath =
  p_root :: string
  p_dir :: string
  p_base :: string
  p_ext :: string
  p_name :: string

text \<open>
  \<open>split_ext\<close> separates the extension of a base name: the part from the last dot on,
  unless there is no dot, the last dot is the first character, or the base name is \<open>..\<close>.
  The library misses the last exception for an absolute path with a single component
  (\<open>aboveRoot\<close>), which the model keeps.
\<close>

definition split_ext :: "bool \<Rightarrow> string \<Rightarrow> string \<times> string" where
  "split_ext aboveRoot b =
     (let after = rev (takeWhile (\<lambda>c. c \<noteq> CHR ''.'') (rev b));
          n = take (length b - length after - 1) b
      in if CHR ''.'' \<notin> set b \<or> n = [] \<or> (b = ''..'' \<and> \<not> aboveRoot) then (b, [])
         else (n, drop (length n) b))"

definition parsePath :: "string \<Rightarrow> ParsedPath" where
  "parsePath p =
     (if p = [] then \<lparr>p_root = [], p_dir = [], p_base = [], p_ext = [], p_name = []\<rparr>
      else
        let isAbsolute = is_absolute p;
            body = (if isAbsolute then tl p else p);
            t = rev (dropWhile (\<lambda>c. c = CHR ''/'') (rev body));
            b = rev (takeWhile (\<lambda>c. c \<noteq> CHR ''/'') (rev t));
            d0 = take (length t - length b) t;
            pre = (if isAbsolute then ''/'' else []);
            ne = split_ext (isAbsolute \<and> d0 = []) b
        in \<lparr>p_root = pre,
            p_dir = (if d0 = [] then pre else pre @ butlast d0),
            p_base = b, p_ext = snd ne, p_name = fst ne\<rparr>)"

section \<open>Build configuration and function definitions\<close>

text \<open>
  The fields of \<open>FiremynaBuildConfig\<close> the code reads: \<open>cwd\<close>, \<open>paths.functions.src\<close>
  and \<open>paths.functions.build\<close>, \<open>renderer\<close>, and in \<open>config\<close> the Node version, the
  optional init path, the ignore patterns and the allow-list.
  A regular expression of the ignore list is taken as the predicate its \<open>test\<close> computes
  (patterns without the sticky and global flags, whose \<open>test\<close> has no state); the patterns
  as objects with their flags and their \<open>lastIndex\<close> are modelled with the inclusion
  policy, in \<open>includedFunction_regexp\<close>.
\<close>

record FiremynaConfig =
  node :: string
  functionsInitPath :: "string option"
  functionsIgnorePaths :: "(string \<Rightarrow> bool) list option"
  onlyFunctions :: "string list option"

record FiremynaBuildConfig =
  cwd :: string
  functions_src :: string
  functions_build :: string
  renderer :: bool
  config :: FiremynaConfig

record FiremynaFunction =
  path :: string
  name :: string

section \<open>The index file and function name patterns\<close>

text \<open>
  \<open>script_ext e\<close>: \<open>e\<close> is matched by \<open>\.[tj]sx?\<close>. \<open>indexRegExp\<close> is
  \<open>/^index\.[tj]sx?$/\<close> and \<open>fnRegExp\<close> is \<open>/^.+\.[tj]sx?$/\<close>, where the dot of \<open>.+\<close>
  matches any character but a line terminator.
\<close>

definition script_ext :: "string \<Rightarrow> bool" where
  "script_ext e = (e = ''.ts'' \<or> e = ''.js'' \<or> e = ''.tsx'' \<or> e = ''.jsx'')"

definition line_terminator :: "char \<Rightarrow> bool" where
  "line_terminator c = (c = CHR 0x0A \<or> c = CHR 0x0D)"

definition indexRegExp :: "string \<Rightarrow> bool" where
  "indexRegExp s = (take 5 s = ''index'' \<and> script_ext (drop 5 s))"

definition fn_match :: "nat \<Rightarrow> string \<Rightarrow> bool" where
  "fn_match k s =
     (k < length s \<and> script_ext (drop (length s - k) s)
      \<and> \<not> list_ex line_terminator (take (length s - k) s))"

definition fnRegExp :: "string \<Rightarrow> bool" where
  "fnRegExp s = (fn_match 3 s \<or> fn_match 4 s)"

section \<open>The Path Classifier\<close>

text \<open>
  \<open>parseFunction\<close> of the source; \<open>pcwd\<close> is \<open>process.cwd()\<close>. The result \<open>None\<close> is
  the source's \<open>undefined\<close>.
\<close>

definition parseFunction :: "string \<Rightarrow> FiremynaBuildConfig \<Rightarrow> string \<Rightarrow> FiremynaFunction option" where
  "parseFunction pcwd buildConfig functionPath =
     (let fnPath = relative pcwd pcwd functionPath;
          relativePath = relative pcwd (resolve pcwd [cwd buildConfig, functions_src buildConfig]) functionPath;
          parsedPath = parsePath relativePath
      in if p_dir parsedPath \<noteq> [] then
           (let nested = (p_dir (parsePath (p_dir parsedPath)) \<noteq> [])
            in if \<not> nested \<and> indexRegExp (p_base parsedPath)
               then Some \<lparr>path = fnPath, name = p_dir parsedPath\<rparr>
               else None)
         else if fnRegExp (p_base parsedPath)
           then Some \<lparr>path = fnPath, name = p_name parsedPath\<rparr>
           else None)"

section \<open>The inclusion policy\<close>

text \<open>
  \<open>truthy\<close> is JavaScript's truthiness of an optional string: \<open>undefined\<close> and the
  empty string are falsy.
\<close>

definition truthy :: "string option \<Rightarrow> bool" where
  "truthy x = (case x of None \<Rightarrow> False | Some s \<Rightarrow> s \<noteq> [])"

definition isInitPath :: "string option \<Rightarrow> string \<Rightarrow> bool" where
  "isInitPath initPath p =
     (case initPath of None \<Rightarrow> False
      | Some i \<Rightarrow> i \<noteq> [] \<and> normalize_path p = normalize_path i)"

definition includedFunction :: "FiremynaBuildConfig \<Rightarrow> FiremynaFunction \<Rightarrow> bool" where
  "includedFunction buildConfig fn =
     (\<not> isInitPath (functionsInitPath (config buildConfig)) (path fn)
      \<and> (case functionsIgnorePaths (config buildConfig) of
             None \<Rightarrow> True
           | Some regexes \<Rightarrow> find (\<lambda>regex. regex (path fn)) regexes = None)
      \<and> (case onlyFunctions (config buildConfig) of
             None \<Rightarrow> True
           | Some only \<Rightarrow> name fn \<in> set only))"

section \<open>The inclusion policy with the state of the ignore patterns\<close>






section \<open>The Index Generator\<close>

text \<open>
  \<open>index_lines\<close> is the array that \<open>stringifyFunctionsIndex\<close> builds with \<open>concat\<close>, before it
  joins it with newlines.
\<close>

definition index_lines :: "FiremynaFunction list \<Rightarrow> FiremynaBuildConfig \<Rightarrow> string list" where
  \<open>index_lines list buildConfig =
     (if truthy (functionsInitPath (config buildConfig)) then [''import "./init.cjs";''] else [])
     @ map (\<lambda>fn. ''export { default as '' @ name fn @ '' } from "./'' @ name fn @ ''.cjs";'') list
     @ (if renderer buildConfig then [''export { default as renderer } from "./renderer";''] else [])\<close>

definition stringifyFunctionsIndex :: "FiremynaFunction list \<Rightarrow> FiremynaBuildConfig \<Rightarrow> string" where
  "stringifyFunctionsIndex list buildConfig = join ''\<newline>'' (index_lines list buildConfig)"

section \<open>The Function Registry\<close>

text \<open>
  The filesystem is the environment of the scan: \<open>stat\<close> answers whether a path is a
  directory and \<open>readdir\<close> lists a directory, and each may fail with an error (the
  promise rejects). A rejection is a value \<open>Inl\<close>.
\<close>

datatype js_error = Error string

record FileSystem =
  fs_stat :: "string \<Rightarrow> js_error + bool"
  fs_readdir :: "string \<Rightarrow> js_error + string list"

definition findFunctionPath :: "string \<Rightarrow> FileSystem \<Rightarrow> string \<Rightarrow> string \<Rightarrow> js_error + string option" where
  "findFunctionPath pcwd fs wd fullPath =
     (case fs_stat fs fullPath of
        Inl e \<Rightarrow> Inl e
      | Inr isDirectory \<Rightarrow>
          if isDirectory then
            (case fs_readdir fs fullPath of
               Inl e \<Rightarrow> Inl e
             | Inr files \<Rightarrow>
                 (case find indexRegExp files of
                    None \<Rightarrow> Inr None
                  | Some indexFile \<Rightarrow> Inr (Some (relative pcwd wd (resolve pcwd [fullPath, indexFile])))))
          else if fnRegExp fullPath then Inr (Some (relative pcwd wd fullPath))
          else Inr None)"

text \<open>
  \<open>Promise.all\<close> over the candidates: it fulfils with all the values when every promise
  fulfils, and rejects as soon as one rejects. The model reports the rejection of the first
  rejected candidate in listing order; the theorems below use only that the result is a
  rejection. \<open>sweep\<close> (js-fns) drops the \<open>undefined\<close> entries.
\<close>

fun promise_all :: "('e + 'a) list \<Rightarrow> 'e + 'a list" where
  "promise_all [] = Inr []"
| "promise_all (x # xs) =
     (case x of
        Inl e \<Rightarrow> Inl e
      | Inr v \<Rightarrow> (case promise_all xs of Inl e \<Rightarrow> Inl e | Inr vs \<Rightarrow> Inr (v # vs)))"

fun sweep :: "'a option list \<Rightarrow> 'a list" where
  "sweep [] = []"
| "sweep (None # xs) = sweep xs"
| "sweep (Some x # xs) = x # sweep xs"

text \<open>The body of the \<open>dir.map\<close> callback of \<open>listFunctions\<close>, for one directory entry.\<close>

definition listFunctions_item :: "string \<Rightarrow> FileSystem \<Rightarrow> FiremynaBuildConfig \<Rightarrow> string \<Rightarrow> js_error + FiremynaFunction option" where
  "listFunctions_item pcwd fs buildConfig itemPath =
     (let fullPath = resolve pcwd [cwd buildConfig, functions_src buildConfig, itemPath]
      in case findFunctionPath pcwd fs (cwd buildConfig) fullPath of
           Inl e \<Rightarrow> Inl e
         | Inr found \<Rightarrow>
             if \<not> truthy found then Inr None
             else
               let fn = \<lparr>path = the found, name = p_name (parsePath itemPath)\<rparr>
               in if includedFunction buildConfig fn then Inr (Some fn) else Inr None)"

definition listFunctions :: "string \<Rightarrow> FileSystem \<Rightarrow> FiremynaBuildConfig \<Rightarrow> js_error + FiremynaFunction list" where
  "listFunctions pcwd fs buildConfig =
     (case fs_readdir fs (resolve pcwd [cwd buildConfig, functions_src buildConfig]) of
        Inl e \<Rightarrow> Inl e
      | Inr dir \<Rightarrow>
          (case promise_all (map (listFunctions_item pcwd fs buildConfig) dir) of
             Inl e \<Rightarrow> Inl e
           | Inr found \<Rightarrow> Inr (sweep found)))"

section \<open>The Watch Event Router\<close>

text \<open>
  The events chokidar passes to an \<open>all\<close> listener; the listener of the source acts on
  \<open>add\<close>, \<open>change\<close> and \<open>unlink\<close> only.
\<close>

datatype watch_event = Add | Change | Unlink

datatype chokidar_event = FileEvent watch_event | AddDir | UnlinkDir

datatype FiremynaWatchMessage =
    Initial "FiremynaFunction list"
  | FunctionMessage watch_event FiremynaFunction
  | InitMessage watch_event

text \<open>The listener: the messages it passes to the callback for one notification.\<close>

definition on_all :: "string \<Rightarrow> FiremynaBuildConfig \<Rightarrow> chokidar_event \<times> string \<Rightarrow> FiremynaWatchMessage list" where
  "on_all pcwd buildConfig n =
     (case fst n of
        FileEvent event \<Rightarrow>
          if isInitPath (functionsInitPath (config buildConfig)) (snd n) then [InitMessage event]
          else
            (case parseFunction pcwd buildConfig (snd n) of
               None \<Rightarrow> []
             | Some fn \<Rightarrow>
                 if includedFunction buildConfig fn then [FunctionMessage event fn] else [])
      | _ \<Rightarrow> [])"

text \<open>
  A run of \<open>watchListFunction\<close>: the rejection of its promise, if any, and the messages
  passed to the callback, in order, given the notifications the watcher delivers after it
  is created. The watcher is created after the callback has received the initial message,
  and only when \<open>listFunctions\<close> has fulfilled.
\<close>

definition watchListFunction :: "string \<Rightarrow> FileSystem \<Rightarrow> FiremynaBuildConfig \<Rightarrow> (chokidar_event \<times> string) list
    \<Rightarrow> js_error option \<times> FiremynaWatchMessage list" where
  "watchListFunction pcwd fs buildConfig notifications =
     (case listFunctions pcwd fs buildConfig of
        Inl e \<Rightarrow> (Some e, [])
      | Inr fns \<Rightarrow> (None, Initial fns # concat (map (on_all pcwd buildConfig) notifications)))"

definition is_initial :: "FiremynaWatchMessage \<Rightarrow> bool" where
  "is_initial m = (case m of Initial _ \<Rightarrow> True | _ \<Rightarrow> False)"

section \<open>Build units\<close>

text \<open>
  esbuild is the environment of a build. \<open>buildFile\<close> of the source calls it with
  \<open>write: false\<close>, so a build returns its output files in memory and esbuild itself writes
  nothing; a failed build or rebuild rejects. An incremental result carries the handle
  that \<open>rebuild()\<close> re-runs and \<open>rebuild.dispose()\<close> releases. (The options \<open>platform\<close>,
  \<open>sourcemap\<close>, \<open>format\<close>, \<open>plugins\<close> and the loader of \<open>stdin\<close> are constants of the call
  that no property below reads; they are left out of the record. The options \<open>bundle\<close> and
  \<open>write\<close> are the fields \<open>bundle_option\<close> and \<open>write_option\<close>.)
\<close>

record OutputFile =
  out_path :: string
  out_contents :: string

record BuildIncremental =
  outputFiles :: "OutputFile list"
  rebuild_handle :: nat

record StdinOptions =
  contents :: string
  sourcefile :: string
  resolveDir :: string

record BuildOptions =
  bundle_option :: bool
  target :: string
  outfile :: string
  entryPoints :: "string list option"
  stdin :: "StdinOptions option"
  allowOverwrite :: bool
  write_option :: bool
  incremental :: bool
  metafile :: bool

record Esbuild =
  esbuild_build :: "BuildOptions \<Rightarrow> js_error + BuildIncremental"
  esbuild_rebuild :: "nat \<Rightarrow> js_error + BuildIncremental"

datatype BuildFileInput =
    InputEntry string "string option"
  | InputContents string "string option"

record BuildFileProps =
  file_name :: string
  input :: BuildFileInput
  resolvePath :: string
  bundle_prop :: bool
  incremental_prop :: bool

definition getBuildFunctionsFilePath :: "string \<Rightarrow> FiremynaBuildConfig \<Rightarrow> string \<Rightarrow> string" where
  "getBuildFunctionsFilePath pcwd buildConfig f =
     resolve pcwd [cwd buildConfig, functions_build buildConfig, f]"

definition buildFile_options :: "string \<Rightarrow> FiremynaBuildConfig \<Rightarrow> BuildFileProps \<Rightarrow> BuildOptions" where
  "buildFile_options pcwd buildConfig props =
     \<lparr>bundle_option = bundle_prop props,
      target = ''node'' @ node (config buildConfig),
      outfile = getBuildFunctionsFilePath pcwd buildConfig (file_name props),
      entryPoints = (case input props of InputEntry p _ \<Rightarrow> Some [p] | InputContents _ _ \<Rightarrow> None),
      stdin = (case input props of
                 InputEntry _ _ \<Rightarrow> None
               | InputContents c sf \<Rightarrow>
                   Some \<lparr>contents = c,
                         sourcefile = (if truthy sf then the sf else file_name props),
                         resolveDir = resolvePath props\<rparr>),
      allowOverwrite = True,
      write_option = False,
      incremental = incremental_prop props,
      metafile = True\<rparr>"

definition buildFile :: "string \<Rightarrow> Esbuild \<Rightarrow> FiremynaBuildConfig \<Rightarrow> BuildFileProps \<Rightarrow> js_error + BuildIncremental" where
  "buildFile pcwd esbuild buildConfig props =
     esbuild_build esbuild (buildFile_options pcwd buildConfig props)"

definition incrementalBuild :: "string \<Rightarrow> Esbuild \<Rightarrow> FiremynaBuildConfig \<Rightarrow> FiremynaFunction \<Rightarrow> js_error + BuildIncremental" where
  "incrementalBuild pcwd esbuild buildConfig fn =
     buildFile pcwd esbuild buildConfig
       \<lparr>file_name = name fn @ ''.cjs'',
        input = InputEntry (resolve pcwd [cwd buildConfig, path fn]) (Some (p_base (parsePath (path fn)))),
        resolvePath = resolve pcwd [cwd buildConfig, p_dir (parsePath (path fn))],
        bundle_prop = True,
        incremental_prop = True\<rparr>"

definition incrementalBuildInit :: "string \<Rightarrow> Esbuild \<Rightarrow> FiremynaBuildConfig \<Rightarrow> js_error + BuildIncremental option" where
  "incrementalBuildInit pcwd esbuild buildConfig =
     (if \<not> truthy (functionsInitPath (config buildConfig)) then Inr None
      else
        let initPath = the (functionsInitPath (config buildConfig))
        in map_sum id Some
             (buildFile pcwd esbuild buildConfig
                \<lparr>file_name = ''init.cjs'',
                 input = InputEntry (resolve pcwd [cwd buildConfig, initPath]) (Some (p_base (parsePath initPath))),
                 resolvePath = resolve pcwd [cwd buildConfig, p_dir (parsePath initPath)],
                 bundle_prop = True,
                 incremental_prop = True\<rparr>))"

text \<open>
  Modelled from the spec: \<open>writeEsbuildFile\<close> (module \<open>esbuild\<close> of the repository, which is
  not among the sources). The spec's \<open>write(artifact)\<close> persists every output buffer to its
  destination, overwriting; the callers pass a build that may be \<open>undefined\<close>, for which
  there is no buffer to write. The disk is a map from paths to contents.
\<close>

definition writeEsbuildFile :: "BuildIncremental option \<Rightarrow> (string \<rightharpoonup> string) \<Rightarrow> (string \<rightharpoonup> string)" where
  "writeEsbuildFile build d =
     (case build of
        None \<Rightarrow> d
      | Some b \<Rightarrow> fold (\<lambda>f d'. d'(out_path f \<mapsto> out_contents f)) (outputFiles b) d)"

section \<open>The consumer of the watch messages\<close>

text \<open>
  The state of \<open>Dev.run\<close> that the callback passed to \<open>watchListFunction\<close> reads and
  writes: the map \<open>builds\<close>, \<open>initBuild\<close>, the list \<open>functions\<close> (the field \<open>functions_list\<close>),
  the disk, and the handles disposed so far. A handler returns the new state and the
  rejection of its promise, if any. (The bookkeeping of \<open>watchDeps\<close>, that is \<open>onBuild\<close> and
  \<open>onStop\<close>, and the log are outside the state modelled.)
\<close>

record DevState =
  builds :: "string \<rightharpoonup> BuildIncremental"
  initBuild :: "BuildIncremental option"
  functions_list :: "FiremynaFunction list"
  disk :: "string \<rightharpoonup> string"
  disposed :: "nat list"

definition startBuilding :: "string \<Rightarrow> Esbuild \<Rightarrow> FiremynaBuildConfig \<Rightarrow> FiremynaFunction \<Rightarrow> DevState \<Rightarrow> DevState \<times> js_error option" where
  "startBuilding pcwd esbuild buildConfig fn st =
     (case incrementalBuild pcwd esbuild buildConfig fn of
        Inl e \<Rightarrow> (st, Some e)
      | Inr build \<Rightarrow>
          (st\<lparr>builds := (builds st)(name fn \<mapsto> build),
              disk := writeEsbuildFile (Some build) (disk st)\<rparr>, None))"

definition startBuildingInit :: "string \<Rightarrow> Esbuild \<Rightarrow> FiremynaBuildConfig \<Rightarrow> DevState \<Rightarrow> DevState \<times> js_error option" where
  "startBuildingInit pcwd esbuild buildConfig st =
     (if \<not> truthy (functionsInitPath (config buildConfig)) then (st, None)
      else
        (case incrementalBuildInit pcwd esbuild buildConfig of
           Inl e \<Rightarrow> (st, Some e)
         | Inr b \<Rightarrow> (st\<lparr>initBuild := b, disk := writeEsbuildFile b (disk st)\<rparr>, None)))"

definition buildIndex :: "string \<Rightarrow> Esbuild \<Rightarrow> FiremynaBuildConfig \<Rightarrow> DevState \<Rightarrow> DevState \<times> js_error option" where
  "buildIndex pcwd esbuild buildConfig st =
     (case buildFile pcwd esbuild buildConfig
             \<lparr>file_name = ''index.cjs'',
              input = InputContents (stringifyFunctionsIndex (functions_list st) buildConfig) None,
              resolvePath = functions_src buildConfig,
              bundle_prop = False,
              incremental_prop = False\<rparr> of
        Inl e \<Rightarrow> (st, Some e)
      | Inr build \<Rightarrow> (st\<lparr>disk := writeEsbuildFile (Some build) (disk st)\<rparr>, None))"

text \<open>
  \<open>Promise.all\<close> over started promises: each of them runs to its end, whether or not
  another one rejects, and the whole rejects when one does.
\<close>

fun run_all :: "('s \<Rightarrow> 's \<times> js_error option) list \<Rightarrow> 's \<Rightarrow> 's \<times> js_error option" where
  "run_all [] st = (st, None)"
| "run_all (t # ts) st =
     (case t st of
        (st1, r1) \<Rightarrow> (case run_all ts st1 of
                        (st2, r2) \<Rightarrow> (st2, (case r1 of None \<Rightarrow> r2 | Some e \<Rightarrow> Some e))))"

text \<open>
  The callback, by message: each handler run from its start to its end, with no other
  handler in between. (The handlers cut at their \<open>await\<close>s, and their interleavings, are
  in the next section.) After the builds of the initial message the source spawns the
  emulator; child processes are the Process Supervisor's, below.
\<close>

definition on_initial :: "string \<Rightarrow> Esbuild \<Rightarrow> FiremynaBuildConfig \<Rightarrow> FiremynaFunction list \<Rightarrow> DevState \<Rightarrow> DevState \<times> js_error option" where
  "on_initial pcwd esbuild buildConfig fns st =
     run_all (startBuildingInit pcwd esbuild buildConfig
              # map (startBuilding pcwd esbuild buildConfig) fns
              @ [buildIndex pcwd esbuild buildConfig])
       (st\<lparr>functions_list := fns\<rparr>)"

definition on_init :: "string \<Rightarrow> Esbuild \<Rightarrow> FiremynaBuildConfig \<Rightarrow> watch_event \<Rightarrow> DevState \<Rightarrow> DevState \<times> js_error option" where
  "on_init pcwd esbuild buildConfig event st =
     (case event of
        Add \<Rightarrow>
          (case startBuildingInit pcwd esbuild buildConfig st of
             (st1, Some e) \<Rightarrow> (st1, Some e)
           | (st1, None) \<Rightarrow>
               if initBuild st1 \<noteq> None then buildIndex pcwd esbuild buildConfig st1 else (st1, None))
      | Change \<Rightarrow>
          (case initBuild st of
             None \<Rightarrow> (st, None)
           | Some b \<Rightarrow>
               (case esbuild_rebuild esbuild (rebuild_handle b) of
                  Inl e \<Rightarrow> (st, Some e)
                | Inr build \<Rightarrow> (st\<lparr>disk := writeEsbuildFile (Some build) (disk st)\<rparr>, None)))
      | Unlink \<Rightarrow> (st\<lparr>initBuild := None\<rparr>, None))"

definition on_function :: "string \<Rightarrow> Esbuild \<Rightarrow> FiremynaBuildConfig \<Rightarrow> watch_event \<Rightarrow> FiremynaFunction \<Rightarrow> DevState \<Rightarrow> DevState \<times> js_error option" where
  "on_function pcwd esbuild buildConfig event fn st =
     (case event of
        Add \<Rightarrow>
          (case startBuilding pcwd esbuild buildConfig fn (st\<lparr>functions_list := functions_list st @ [fn]\<rparr>) of
             (st1, Some e) \<Rightarrow> (st1, Some e)
           | (st1, None) \<Rightarrow> buildIndex pcwd esbuild buildConfig st1)
      | Change \<Rightarrow>
          (case builds st (name fn) of
             None \<Rightarrow> (st\<lparr>disk := writeEsbuildFile None (disk st)\<rparr>, None)
           | Some b \<Rightarrow>
               (case esbuild_rebuild esbuild (rebuild_handle b) of
                  Inl e \<Rightarrow> (st, Some e)
                | Inr build \<Rightarrow> (st\<lparr>disk := writeEsbuildFile (Some build) (disk st)\<rparr>, None)))
      | Unlink \<Rightarrow>
          (let st1 = st\<lparr>functions_list := filter (\<lambda>f. name f \<noteq> name fn) (functions_list st)\<rparr>;
               st2 = (case builds st1 (name fn) of
                        None \<Rightarrow> st1
                      | Some b \<Rightarrow> st1\<lparr>disposed := disposed st1 @ [rebuild_handle b]\<rparr>);
               st3 = st2\<lparr>builds := (builds st2)(name fn := None)\<rparr>
           in (fst (buildIndex pcwd esbuild buildConfig st3), None)))"

definition on_message :: "string \<Rightarrow> Esbuild \<Rightarrow> FiremynaBuildConfig \<Rightarrow> FiremynaWatchMessage \<Rightarrow> DevState \<Rightarrow> DevState \<times> js_error option" where
  "on_message pcwd esbuild buildConfig message st =
     (case message of
        Initial fns \<Rightarrow> on_initial pcwd esbuild buildConfig fns st
      | InitMessage event \<Rightarrow> on_init pcwd esbuild buildConfig event st
      | FunctionMessage event fn \<Rightarrow> on_function pcwd esbuild buildConfig event fn st)"

text \<open>
  The callback that \<open>Dev.run\<close> passes to \<open>watchDeps\<close>, called with the key of a unit when one
  of its dependencies changes: the third place where the source calls \<open>rebuild()\<close>.
\<close>

definition on_dependency_change :: "Esbuild \<Rightarrow> string \<Rightarrow> DevState \<Rightarrow> DevState \<times> js_error option" where
  "on_dependency_change esbuild f st =
     (case builds st f of
        None \<Rightarrow> (st\<lparr>disk := writeEsbuildFile None (disk st)\<rparr>, None)
      | Some b \<Rightarrow>
          (case esbuild_rebuild esbuild (rebuild_handle b) of
             Inl e \<Rightarrow> (st, Some e)
           | Inr build \<Rightarrow> (st\<lparr>disk := writeEsbuildFile (Some build) (disk st)\<rparr>, None)))"

section \<open>The consumer, one segment at a time\<close>












section \<open>The Process Supervisor\<close>

text \<open>
  The state of the signal handling of \<open>Dev.run\<close>: the flag \<open>exiting\<close>, the list
  \<open>children\<close> (a child process is identified by a number), the status \<open>process.exit\<close> was
  called with, if it was, and the calls of \<open>child.kill\<close> made so far. Node runs one
  handler at a time; once \<open>process.exit\<close> is called the process is gone and no handler
  runs any more.
\<close>

datatype signal = SIGINT | SIGTERM | SIGHUP | SIGQUIT

record Supervisor =
  exiting :: bool
  children :: "nat list"
  exited :: "int option"
  killed :: "(nat \<times> signal) list"

definition exitIfNoChildren :: "Supervisor \<Rightarrow> Supervisor" where
  "exitIfNoChildren st = (if children st = [] then st\<lparr>exited := Some 0\<rparr> else st)"

text \<open>
  \<open>children.splice(children.indexOf(child), 1)\<close>: the first occurrence of the child is
  removed; when there is none, \<open>indexOf\<close> is \<open>-1\<close> and \<open>splice\<close> removes the last element.
\<close>

definition splice_child :: "nat \<Rightarrow> nat list \<Rightarrow> nat list" where
  "splice_child child cs = (if child \<in> set cs then remove1 child cs else butlast cs)"

definition addChild :: "nat \<Rightarrow> Supervisor \<Rightarrow> Supervisor" where
  "addChild child st = st\<lparr>children := children st @ [child]\<rparr>"

definition on_exit :: "nat \<Rightarrow> Supervisor \<Rightarrow> Supervisor" where
  "on_exit child st =
     (let st1 = st\<lparr>children := splice_child child (children st)\<rparr>
      in if exiting st1 then exitIfNoChildren st1 else st1)"

definition on_signal :: "signal \<Rightarrow> Supervisor \<Rightarrow> Supervisor" where
  "on_signal sig st =
     (let st1 = exitIfNoChildren (st\<lparr>exiting := True\<rparr>)
      in if exited st1 \<noteq> None then st1
         else st1\<lparr>killed := killed st1 @ map (\<lambda>child. (child, sig)) (children st1)\<rparr>)"

datatype sup_event = Spawn nat | ChildExit nat | Signal signal

definition sup_step :: "sup_event \<Rightarrow> Supervisor \<Rightarrow> Supervisor" where
  "sup_step ev st =
     (if exited st \<noteq> None then st
      else (case ev of
              Spawn child \<Rightarrow> addChild child st
            | ChildExit child \<Rightarrow> on_exit child st
            | Signal sig \<Rightarrow> on_signal sig st))"

definition sup_run :: "sup_event list \<Rightarrow> Supervisor \<Rightarrow> Supervisor" where
  "sup_run evs st = fold sup_step evs st"

definition sup_init :: Supervisor where
  "sup_init = \<lparr>exiting = False, children = [], exited = None, killed = []\<rparr>"

text \<open>
  What Node guarantees of the events: a child is spawned (and its exit listener
  registered) once, and its \<open>exit\<close> event is emitted once, after the spawn.
\<close>

fun event_ok :: "sup_event list \<Rightarrow> sup_event \<Rightarrow> bool" where
  "event_ok past (Spawn child) = (Spawn child \<notin> set past)"
| "event_ok past (ChildExit child) = (Spawn child \<in> set past \<and> ChildExit child \<notin> set past)"
| "event_ok past (Signal sig) = True"

fun events_ok_rev :: "sup_event list \<Rightarrow> bool" where
  "events_ok_rev [] = True"
| "events_ok_rev (ev # past) = (event_ok past ev \<and> events_ok_rev past)"

definition events_ok :: "sup_event list \<Rightarrow> bool" where
  "events_ok evs = events_ok_rev (rev evs)"

section \<open>The Module Resolver\<close>

text \<open>
  The \<open>onResolve\<close> callback of \<open>resolvePlugin\<close>. The list \<open>builtinModules\<close> of Node and the
  resolver of enhanced-resolve are parameters: the resolver answers with an error or with
  a result, which is a path or nothing (\<open>false\<close> or \<open>undefined\<close>).
\<close>

record OnResolveResult =
  res_path :: string
  res_external :: bool

definition onResolve :: "string list \<Rightarrow> (string \<Rightarrow> string \<Rightarrow> js_error option \<times> string option)
    \<Rightarrow> string \<Rightarrow> string \<Rightarrow> js_error + OnResolveResult" where
  "onResolve builtinModules resolver dir spec =
     (if list_ex (\<lambda>module. starts_with spec module) builtinModules
      then Inr \<lparr>res_path = spec, res_external = True\<rparr>
      else
        (case resolver dir spec of
           (err, resolved) \<Rightarrow>
             if err \<noteq> None \<or> \<not> truthy resolved
             then Inl (case err of
                         Some e \<Rightarrow> e
                       | None \<Rightarrow> Error (''Cannot resolve '' @ spec @ '' at '' @ dir))
             else Inr \<lparr>res_path = the resolved,
                      res_external = includes_str (the resolved) ''node_modules''\<rparr>))"

section \<open>Predicates of the proofs\<close>

text \<open>
  A component of a path: non-empty and without a separator. A plain component is one
  that is neither \<open>.\<close> nor \<open>..\<close>.
\<close>

definition seg_ok :: "string \<Rightarrow> bool" where
  "seg_ok s = (s \<noteq> [] \<and> CHR ''/'' \<notin> set s)"

definition plain :: "string \<Rightarrow> bool" where
  "plain s = (seg_ok s \<and> s \<noteq> ''.'' \<and> s \<noteq> ''..'')"

section \<open>Example inputs\<close>

text \<open>
  A project at \<open>/proj\<close> whose functions live in \<open>app/functions\<close>, with no init module, no
  ignore pattern and no allow-list.
\<close>

definition example_config :: FiremynaBuildConfig where
  "example_config =
     \<lparr>cwd = ''/proj'', functions_src = ''app/functions'', functions_build = ''build/functions'',
      renderer = False,
      config = \<lparr>node = ''18'', functionsInitPath = None, functionsIgnorePaths = None,
                 onlyFunctions = None\<rparr>\<rparr>"


text \<open>
  Filesystems for the project. In \<open>example_fs\<close> the source root holds the file \<open>hello.ts\<close>
  and the directory \<open>greet\<close> with an \<open>index.ts\<close>. In \<open>example_fs_dotted\<close> it holds the
  directory \<open>api.v1\<close> with an \<open>index.ts\<close>. In \<open>example_fs_broken\<close> it also lists
  \<open>broken.ts\<close>, whose \<open>stat\<close> fails (a dangling symbolic link). In \<open>example_fs_missing\<close>
  the source root does not exist.
\<close>

definition example_fs :: FileSystem where
  "example_fs =
     \<lparr>fs_stat = (\<lambda>p. if p = ''/proj/app/functions/greet'' then Inr True
                     else if p = ''/proj/app/functions/hello.ts'' then Inr False
                     else Inl (Error ''ENOENT'')),
      fs_readdir = (\<lambda>p. if p = ''/proj/app/functions'' then Inr [''hello.ts'', ''greet'']
                        else if p = ''/proj/app/functions/greet'' then Inr [''index.ts'']
                        else Inl (Error ''ENOENT''))\<rparr>"

definition example_fs_dotted :: FileSystem where
  "example_fs_dotted =
     \<lparr>fs_stat = (\<lambda>p. if p = ''/proj/app/functions/api.v1'' then Inr True
                     else Inl (Error ''ENOENT'')),
      fs_readdir = (\<lambda>p. if p = ''/proj/app/functions'' then Inr [''api.v1'']
                        else if p = ''/proj/app/functions/api.v1'' then Inr [''index.ts'']
                        else Inl (Error ''ENOENT''))\<rparr>"

definition example_fs_broken :: FileSystem where
  "example_fs_broken =
     \<lparr>fs_stat = (\<lambda>p. if p = ''/proj/app/functions/greet'' then Inr True
                     else if p = ''/proj/app/functions/hello.ts'' then Inr False
                     else Inl (Error ''ENOENT'')),
      fs_readdir = (\<lambda>p. if p = ''/proj/app/functions'' then Inr [''hello.ts'', ''broken.ts'', ''greet'']
                        else if p = ''/proj/app/functions/greet'' then Inr [''index.ts'']
                        else Inl (Error ''ENOENT''))\<rparr>"

definition example_fs_missing :: FileSystem where
  "example_fs_missing =
     \<lparr>fs_stat = (\<lambda>p. Inl (Error ''ENOENT'')), fs_readdir = (\<lambda>p. Inl (Error ''ENOENT''))\<rparr>"

text \<open>
  An excerpt of Node's \<open>builtinModules\<close>, and a resolver that finds every package under
  \<open>/proj/node_modules\<close> and every relative specifier but \<open>./missing\<close> beside the importer.
\<close>

definition example_builtins :: "string list" where
  "example_builtins = [''assert'', ''fs'', ''fs/promises'', ''path'', ''util'']"

definition example_resolver :: "string \<Rightarrow> string \<Rightarrow> js_error option \<times> string option" where
  "example_resolver dir spec =
     (if spec = ''./missing'' then (Some (Error ''Module not found''), None)
      else if starts_with spec ''./'' then (None, Some (dir @ drop 1 spec @ ''.ts''))
      else (None, Some (''/proj/node_modules/'' @ spec @ ''/index.js'')))"

definition example_resolver_nothing :: "string \<Rightarrow> string \<Rightarrow> js_error option \<times> string option" where
  "example_resolver_nothing dir spec = (None, None)"

text \<open>
  A consumer state in which \<open>hello\<close> has been built once (its output \<open>v1\<close> is on disk), an
  esbuild whose builds and rebuilds all fail, and one whose builds and rebuilds succeed
  with the output \<open>v2\<close>.
\<close>

definition example_hello :: FiremynaFunction where
  "example_hello = \<lparr>path = ''app/functions/hello.ts'', name = ''hello''\<rparr>"


definition example_state :: DevState where
  "example_state =
     \<lparr>builds = [''hello'' \<mapsto>
                  \<lparr>outputFiles = [\<lparr>out_path = ''/proj/build/functions/hello.cjs'', out_contents = ''v1''\<rparr>],
                   rebuild_handle = 1\<rparr>],
      initBuild = None,
      functions_list = [example_hello],
      disk = [''/proj/build/functions/hello.cjs'' \<mapsto> ''v1''],
      disposed = []\<rparr>"

definition example_esbuild_failing :: Esbuild where
  "example_esbuild_failing =
     \<lparr>esbuild_build = (\<lambda>options. Inl (Error ''Build failed'')),
      esbuild_rebuild = (\<lambda>h. Inl (Error ''Build failed''))\<rparr>"

definition example_esbuild_ok :: Esbuild where
  "example_esbuild_ok =
     \<lparr>esbuild_build =
        (\<lambda>options. Inr \<lparr>outputFiles = [\<lparr>out_path = outfile options, out_contents = ''v2''\<rparr>],
                         rebuild_handle = 2\<rparr>),
      esbuild_rebuild =
        (\<lambda>h. Inr \<lparr>outputFiles = [\<lparr>out_path = ''/proj/build/functions/hello.cjs'', out_contents = ''v2''\<rparr>],
                   rebuild_handle = h\<rparr>)\<rparr>"




section \<open>Facts about the path model\<close>

lemma join_snoc: "xs \<noteq> [] \<Longrightarrow> join sep (xs @ [x]) = join sep xs @ sep @ x"
  by (induction sep xs rule: join.induct) auto

lemma join_Cons: "ys \<noteq> [] \<Longrightarrow> join sep (x # ys) = x @ sep @ join sep ys"
  by (cases ys) auto

lemma split_on_ne: "split_on c s \<noteq> []"
  by (induction s) (auto split: list.splits)

lemma split_on_free: "c \<notin> set s \<Longrightarrow> split_on c s = [s]"
  by (induction s) (auto split: list.splits)

lemma split_on_append: "c \<notin> set a \<Longrightarrow> split_on c (a @ c # b) = a # split_on c b"
  by (induction a) (auto split: list.splits)

lemma split_on_join:
  "xs \<noteq> [] \<Longrightarrow> \<forall>s \<in> set xs. c \<notin> set s \<Longrightarrow> split_on c (join [c] xs) = xs"
proof (induction xs)
  case Nil then show ?case by simp
next
  case (Cons x xs)
  show ?case
  proof (cases xs)
    case Nil with Cons.prems show ?thesis by (simp add: split_on_free)
  next
    case (Cons y ys)
    with Cons.prems Cons.IH show ?thesis by (simp add: split_on_append)
  qed
qed

lemma segments_join:
  assumes "\<forall>s \<in> set xs. seg_ok s"
  shows "segments (join ''/'' xs) = xs" and "segments (CHR ''/'' # join ''/'' xs) = xs"
proof -
  have f: "filter (\<lambda>s. s \<noteq> []) xs = xs" using assms by (simp add: seg_ok_def filter_id_conv)
  show "segments (join ''/'' xs) = xs"
  proof (cases "xs = []")
    case True then show ?thesis by (simp add: segments_def)
  next
    case False
    then have "split_on (CHR ''/'') (join ''/'' xs) = xs"
      using assms split_on_join[of xs "CHR ''/''"] by (simp add: seg_ok_def)
    then show ?thesis using f by (simp add: segments_def)
  qed
  then show "segments (CHR ''/'' # join ''/'' xs) = xs"
    by (simp add: segments_def)
qed

lemma split_on_seg: "\<forall>s \<in> set (split_on c p). c \<notin> set s"
  by (induction p) (auto split: list.splits)

lemma segments_ok: "\<forall>s \<in> set (segments p). seg_ok s"
  using split_on_seg[of "CHR ''/''" p] by (auto simp: segments_def seg_ok_def)

lemma normalizeString_plain:
  "\<forall>s \<in> set res. plain s \<Longrightarrow> \<forall>s \<in> set ss. seg_ok s
   \<Longrightarrow> \<forall>s \<in> set (normalizeString False res ss). plain s"
proof (induction ss arbitrary: res)
  case Nil then show ?case by simp
next
  case (Cons s ss)
  have b: "\<forall>s \<in> set (butlast res). plain s" using Cons.prems(1) by (meson in_set_butlastD)
  have t: "\<forall>s \<in> set ss. seg_ok s" using Cons.prems(2) by simp
  have i1: "\<forall>s \<in> set (normalizeString False res ss). plain s"
    using Cons.IH[OF Cons.prems(1) t] .
  have i2: "\<forall>s \<in> set (normalizeString False (butlast res) ss). plain s"
    using Cons.IH[OF b t] .
  have i3: "s \<noteq> [] \<Longrightarrow> s \<noteq> ''.'' \<Longrightarrow> s \<noteq> ''..''
      \<Longrightarrow> \<forall>x \<in> set (normalizeString False (res @ [s]) ss). plain x"
  proof -
    assume "s \<noteq> []" "s \<noteq> ''.''" "s \<noteq> ''..''"
    then have "plain s" using Cons.prems(2) by (simp add: plain_def)
    then have "\<forall>x \<in> set (res @ [s]). plain x" using Cons.prems(1) by simp
    then show ?thesis using Cons.IH[OF _ t] by blast
  qed
  show ?case using i1 i2 i3 by (simp only: normalizeString.simps if_False split: if_splits) blast
qed

lemma normalizeString_id:
  "\<forall>s \<in> set ss. plain s \<Longrightarrow> normalizeString a res ss = res @ ss"
proof (induction ss arbitrary: res)
  case Nil then show ?case by simp
next
  case (Cons s ss)
  have p: "s \<noteq> []" "s \<noteq> ''.''" "s \<noteq> ''..''"
    using Cons.prems by (simp_all add: plain_def seg_ok_def)
  have "normalizeString a res (s # ss) = normalizeString a (res @ [s]) ss"
    using p by simp
  then show ?case using Cons by simp
qed

lemma strip_common_Nil: "strip_common [] s = ([], s)"
  by (cases s) simp_all

lemma strip_common_prefix: "strip_common r (r @ s) = ([], s)"
  by (induction r) (simp_all add: strip_common_Nil)

lemma resolve_args_abs: "list_ex is_absolute ps \<Longrightarrow> list_ex is_absolute (resolve_args ps)"
  by (induction ps) auto

lemma resolve_abs:
  assumes "is_absolute pcwd"
  shows "resolve pcwd args = CHR ''/'' # join ''/'' (resolve_segs pcwd args)"
    and "\<forall>s \<in> set (resolve_segs pcwd args). plain s"
proof -
  have a: "list_ex is_absolute (resolve_args (pcwd # args))"
    using assms resolve_args_abs[of "pcwd # args"] by simp
  then show "resolve pcwd args = CHR ''/'' # join ''/'' (resolve_segs pcwd args)"
    by (simp add: resolve_def Let_def)
  have "\<forall>s \<in> set (concat (map segments (resolve_args (pcwd # args)))). seg_ok s"
    using segments_ok by auto
  then show "\<forall>s \<in> set (resolve_segs pcwd args). plain s"
    unfolding resolve_segs_def Let_def using a normalizeString_plain[of "[]"]
    by (simp del: resolve_args.simps set_concat)
qed

lemma resolve_segs_abs_string:
  assumes "\<forall>s \<in> set xs. plain s"
  shows "resolve_segs pcwd [CHR ''/'' # join ''/'' xs] = xs"
proof -
  have "is_absolute (CHR ''/'' # join ''/'' xs)" by (simp add: is_absolute_def)
  then have "resolve_args [pcwd, CHR ''/'' # join ''/'' xs] = [CHR ''/'' # join ''/'' xs]" by simp
  moreover have "segments (CHR ''/'' # join ''/'' xs) = xs"
    using assms segments_join(2)[of xs] by (simp add: plain_def)
  ultimately show ?thesis
    using assms normalizeString_id[of xs _ "[]"] by (simp add: resolve_segs_def is_absolute_def)
qed

lemma seg_ok_not_abs: "seg_ok s \<Longrightarrow> \<not> is_absolute s"
  by (cases s) (auto simp: seg_ok_def is_absolute_def)

lemma parsePath_single:
  assumes "seg_ok b"
  shows "parsePath b = \<lparr>p_root = [], p_dir = [], p_base = b,
           p_ext = snd (split_ext False b), p_name = fst (split_ext False b)\<rparr>"
proof -
  have ne: "b \<noteq> []" and na: "\<not> is_absolute b" using assms seg_ok_not_abs by (auto simp: seg_ok_def)
  have all: "\<forall>c \<in> set (rev b). c \<noteq> CHR ''/''" using assms by (auto simp: seg_ok_def)
  have d: "dropWhile (\<lambda>c. c = CHR ''/'') (rev b) = rev b"
    using ne all by (cases "rev b") auto
  have t: "takeWhile (\<lambda>c. c \<noteq> CHR ''/'') (rev b) = rev b"
    using all by (simp add: takeWhile_eq_all_conv)
  show ?thesis using ne na by (simp add: parsePath_def Let_def d t)
qed

lemma parsePath_dir:
  assumes "seg_ok b" and "d \<noteq> []" and "\<not> is_absolute d"
  shows "parsePath (d @ ''/'' @ b) = \<lparr>p_root = [], p_dir = d, p_base = b,
           p_ext = snd (split_ext False b), p_name = fst (split_ext False b)\<rparr>"
proof -
  have ne: "b \<noteq> []" using assms by (simp add: seg_ok_def)
  have na: "\<not> is_absolute (d @ CHR ''/'' # b)"
    using assms(2,3) by (cases d) (auto simp: is_absolute_def)
  have all: "\<forall>c \<in> set (rev b). c \<noteq> CHR ''/''" using assms by (auto simp: seg_ok_def)
  have d: "dropWhile (\<lambda>c. c = CHR ''/'') (rev b @ CHR ''/'' # rev d) = rev b @ CHR ''/'' # rev d"
    using ne all by (cases "rev b") auto
  have t: "takeWhile (\<lambda>c. c \<noteq> CHR ''/'') (rev b @ CHR ''/'' # rev d) = rev b"
    using all by (simp add: takeWhile_tail takeWhile_eq_all_conv)
  have ex: "\<exists>x \<in> set d \<union> set b. x \<noteq> CHR ''/''"
    using ne all by (cases b) auto
  show ?thesis
    using na ex assms(2) by (simp add: parsePath_def Let_def d t)
qed

lemma join_ne:
  "xs \<noteq> [] \<Longrightarrow> \<forall>s \<in> set xs. seg_ok s
   \<Longrightarrow> join ''/'' xs \<noteq> [] \<and> \<not> is_absolute (join ''/'' xs)"
proof (cases xs)
  case Nil
  assume "xs \<noteq> []" with Nil show ?thesis by simp
next
  case (Cons x ys)
  assume "\<forall>s \<in> set xs. seg_ok s"
  then have "seg_ok x" using Cons by simp
  then obtain c cs where "x = c # cs" "c \<noteq> CHR ''/''" by (cases x) (auto simp: seg_ok_def)
  then show ?thesis using Cons by (cases ys) (auto simp: is_absolute_def)
qed

lemma split_ext_script:
  assumes "script_ext e" and "stem \<noteq> []"
  shows "split_ext a (stem @ e) = (stem, e)"
proof -
  consider "e = ''.ts''" | "e = ''.js''" | "e = ''.tsx''" | "e = ''.jsx''"
    using assms(1) by (auto simp: script_ext_def)
  then show ?thesis
    using assms(2) by cases (simp_all add: split_ext_def Let_def)
qed

lemma fnRegExp_iff:
  "fnRegExp b \<longleftrightarrow> (\<exists>stem e. b = stem @ e \<and> stem \<noteq> [] \<and> script_ext e \<and> \<not> list_ex line_terminator stem)"
proof
  assume "fnRegExp b"
  then obtain k where k: "fn_match k b" by (auto simp: fnRegExp_def)
  let ?s = "take (length b - k) b" and ?e = "drop (length b - k) b"
  have "b = ?s @ ?e" by simp
  moreover have "?s \<noteq> []" using k by (auto simp: fn_match_def)
  moreover have "script_ext ?e" "\<not> list_ex line_terminator ?s" using k by (auto simp: fn_match_def)
  ultimately show "\<exists>stem e. b = stem @ e \<and> stem \<noteq> [] \<and> script_ext e \<and> \<not> list_ex line_terminator stem"
    by blast
next
  assume "\<exists>stem e. b = stem @ e \<and> stem \<noteq> [] \<and> script_ext e \<and> \<not> list_ex line_terminator stem"
  then obtain stem e where h: "b = stem @ e" "stem \<noteq> []" "script_ext e" "\<not> list_ex line_terminator stem"
    by blast
  have "length e = 3 \<or> length e = 4" using h(3) by (auto simp: script_ext_def)
  then show "fnRegExp b"
  proof
    assume "length e = 3"
    then have "fn_match 3 b" using h by (simp add: fn_match_def)
    then show ?thesis by (simp add: fnRegExp_def)
  next
    assume "length e = 4"
    then have "fn_match 4 b" using h by (simp add: fn_match_def)
    then show ?thesis by (simp add: fnRegExp_def)
  qed
qed

lemma indexRegExp_iff: "indexRegExp b \<longleftrightarrow> (\<exists>e. b = ''index'' @ e \<and> script_ext e)"
proof
  assume "indexRegExp b"
  then have "take 5 b = ''index''" "script_ext (drop 5 b)" by (auto simp: indexRegExp_def)
  then have "b = ''index'' @ drop 5 b \<and> script_ext (drop 5 b)"
    by (metis append_take_drop_id)
  then show "\<exists>e. b = ''index'' @ e \<and> script_ext e" by blast
next
  assume "\<exists>e. b = ''index'' @ e \<and> script_ext e"
  then show "indexRegExp b" by (auto simp: indexRegExp_def)
qed

lemma relative_under:
  assumes ab: "is_absolute pcwd"
      and rs: "\<forall>s \<in> set r. plain s"
      and h: "resolve_segs pcwd [fp] = r @ segs" and ne: "segs \<noteq> []"
  shows "relative pcwd (CHR ''/'' # join ''/'' r) fp = join ''/'' segs"
proof -
  let ?from = "CHR ''/'' # join ''/'' r"
  have fr: "resolve_segs pcwd [?from] = r" using rs by (rule resolve_segs_abs_string)
  have neq: "?from \<noteq> fp" using fr h ne by auto
  have f: "resolve pcwd [?from] = ?from" using resolve_abs(1)[OF ab, of "[?from]"] fr by simp
  have t: "resolve pcwd [fp] = CHR ''/'' # join ''/'' (r @ segs)"
    using resolve_abs(1)[OF ab, of "[fp]"] h by simp
  have pl: "\<forall>s \<in> set (r @ segs). plain s" using resolve_abs(2)[OF ab, of "[fp]"] h by simp
  have sf: "segments ?from = r" using rs segments_join(2)[of r] by (simp add: plain_def)
  have st: "segments (CHR ''/'' # join ''/'' (r @ segs)) = r @ segs"
    using pl segments_join(2)[of "r @ segs"] by (simp add: plain_def)
  have ft: "?from \<noteq> CHR ''/'' # join ''/'' (r @ segs)"
  proof
    assume "?from = CHR ''/'' # join ''/'' (r @ segs)"
    then have "segments ?from = segments (CHR ''/'' # join ''/'' (r @ segs))" by simp
    then show False using sf st ne by simp
  qed
  show ?thesis
    unfolding relative_def Let_def f t using neq ft sf st
    by (simp add: strip_common_prefix)
qed

lemma parseFunction_rel:
  assumes ab: "is_absolute pcwd"
      and h: "resolve_segs pcwd [functionPath] = resolve_segs pcwd [cwd cfg, functions_src cfg] @ segs"
      and ne: "segs \<noteq> []"
  shows "relative pcwd (resolve pcwd [cwd cfg, functions_src cfg]) functionPath = join ''/'' segs"
    and "\<forall>s \<in> set segs. seg_ok s"
proof -
  let ?r = "resolve_segs pcwd [cwd cfg, functions_src cfg]"
  have r: "resolve pcwd [cwd cfg, functions_src cfg] = CHR ''/'' # join ''/'' ?r"
    using resolve_abs(1)[OF ab] .
  have rp: "\<forall>s \<in> set ?r. plain s" using resolve_abs(2)[OF ab] .
  show "relative pcwd (resolve pcwd [cwd cfg, functions_src cfg]) functionPath = join ''/'' segs"
    unfolding r using relative_under[OF ab rp h ne] .
  have "\<forall>s \<in> set (?r @ segs). plain s" using resolve_abs(2)[OF ab, of "[functionPath]"] h by simp
  then show "\<forall>s \<in> set segs. seg_ok s" by (simp add: plain_def)
qed

lemma parseFunction_flat:
  assumes "relative pcwd (resolve pcwd [cwd cfg, functions_src cfg]) fp = b" and "seg_ok b"
  shows "parseFunction pcwd cfg fp =
    (if fnRegExp b then Some \<lparr>path = relative pcwd pcwd fp, name = fst (split_ext False b)\<rparr> else None)"
  using assms by (simp add: parseFunction_def Let_def parsePath_single)

lemma parseFunction_sub:
  assumes "relative pcwd (resolve pcwd [cwd cfg, functions_src cfg]) fp = d @ ''/'' @ b"
      and "seg_ok b" and "seg_ok d"
  shows "parseFunction pcwd cfg fp =
    (if indexRegExp b then Some \<lparr>path = relative pcwd pcwd fp, name = d\<rparr> else None)"
proof -
  have d: "d \<noteq> []" "\<not> is_absolute d" using assms(3) seg_ok_not_abs by (auto simp: seg_ok_def)
  have p: "parsePath (d @ CHR ''/'' # b) = \<lparr>p_root = [], p_dir = d, p_base = b,
           p_ext = snd (split_ext False b), p_name = fst (split_ext False b)\<rparr>"
    using parsePath_dir[OF assms(2) d] by simp
  show ?thesis
    using assms(1) d p by (simp add: parseFunction_def Let_def parsePath_single[OF assms(3)])
qed

lemma parseFunction_deep:
  assumes "relative pcwd (resolve pcwd [cwd cfg, functions_src cfg]) fp = join ''/'' (ds @ [d, b])"
      and "\<forall>s \<in> set (ds @ [d, b]). seg_ok s" and "ds \<noteq> []"
  shows "parseFunction pcwd cfg fp = None"
proof -
  have b: "seg_ok b" and d: "seg_ok d" and dss: "\<forall>s \<in> set ds. seg_ok s" using assms(2) by auto
  have j1: "join ''/'' ds \<noteq> []" "\<not> is_absolute (join ''/'' ds)"
    using join_ne[OF assms(3) dss] by auto
  let ?dir = "join ''/'' ds @ ''/'' @ d"
  have e: "join ''/'' (ds @ [d, b]) = ?dir @ ''/'' @ b"
    using join_snoc[of "ds @ [d]" "''/''" b] join_snoc[OF assms(3), of "''/''" d] by simp
  have dn: "?dir \<noteq> []" "\<not> is_absolute ?dir" using j1 by (cases "join ''/'' ds"; simp add: is_absolute_def)+
  have p1: "p_dir (parsePath (?dir @ ''/'' @ b)) = ?dir" "p_base (parsePath (?dir @ ''/'' @ b)) = b"
    using parsePath_dir[OF b dn] by simp_all
  have p2: "p_dir (parsePath ?dir) = join ''/'' ds" using parsePath_dir[OF d j1] by simp
  show ?thesis
    unfolding parseFunction_def Let_def assms(1) e p1 p2 using dn(1) j1(1) by simp
qed


section \<open>The Path Classifier: claim C1\<close>

text \<open>
  Claim C1, as amended. Let \<open>functionPath\<close> lie under the function source root, \<open>segs\<close>
  being its components below the root. \<open>parseFunction\<close> yields: for a single component
  made of a non-empty stem without line terminator and a script extension (\<open>.js\<close>, \<open>.ts\<close>,
  \<open>.jsx\<close>, \<open>.tsx\<close>), the identity named by the stem (the index module \<open>index.ts\<close> included);
  for a directory and an index file name, the identity named by the directory; and
  \<open>None\<close> for every other path, those three or more components deep included.
\<close>

theorem parseFunction_classifies:
  assumes ab: "is_absolute pcwd"
      and h: "resolve_segs pcwd [functionPath] = resolve_segs pcwd [cwd cfg, functions_src cfg] @ segs"
      and ne: "segs \<noteq> []"
  shows "(segs = [stem @ e] \<and> stem \<noteq> [] \<and> \<not> list_ex line_terminator stem \<and> script_ext e
            \<longrightarrow> parseFunction pcwd cfg functionPath
                  = Some \<lparr>path = relative pcwd pcwd functionPath, name = stem\<rparr>)
       \<and> (segs = [b] \<and> \<not> fnRegExp b \<longrightarrow> parseFunction pcwd cfg functionPath = None)
       \<and> (segs = [d, b] \<and> indexRegExp b
            \<longrightarrow> parseFunction pcwd cfg functionPath
                  = Some \<lparr>path = relative pcwd pcwd functionPath, name = d\<rparr>)
       \<and> (segs = [d, b] \<and> \<not> indexRegExp b \<longrightarrow> parseFunction pcwd cfg functionPath = None)
       \<and> (2 < length segs \<longrightarrow> parseFunction pcwd cfg functionPath = None)"
proof -
  note rel = parseFunction_rel[OF ab h ne]
  have c1: "parseFunction pcwd cfg functionPath
              = Some \<lparr>path = relative pcwd pcwd functionPath, name = stem\<rparr>"
    if "segs = [stem @ e]" "stem \<noteq> []" "\<not> list_ex line_terminator stem" "script_ext e" for stem e
  proof -
    have "fnRegExp (stem @ e)" using that fnRegExp_iff by blast
    moreover have "fst (split_ext False (stem @ e)) = stem" using that split_ext_script by simp
    ultimately show ?thesis using parseFunction_flat[of pcwd cfg functionPath "stem @ e"] rel that(1) by simp
  qed
  have c2: "parseFunction pcwd cfg functionPath = None" if "segs = [b]" "\<not> fnRegExp b" for b
    using parseFunction_flat[of pcwd cfg functionPath b] rel that by simp
  have c34: "parseFunction pcwd cfg functionPath =
      (if indexRegExp b then Some \<lparr>path = relative pcwd pcwd functionPath, name = d\<rparr> else None)"
    if "segs = [d, b]" for d b
    using parseFunction_sub[of pcwd cfg functionPath d b] rel that by simp
  have c5: "parseFunction pcwd cfg functionPath = None" if len: "2 < length segs"
  proof -
    obtain xs b where 1: "segs = xs @ [b]" using ne by (metis rev_exhaust)
    with len have "xs \<noteq> []" by auto
    then obtain ys d where 2: "xs = ys @ [d]" by (metis rev_exhaust)
    with 1 len have 3: "ys \<noteq> []" by auto
    have s: "segs = ys @ [d, b]" using 1 2 by simp
    show ?thesis using parseFunction_deep[of pcwd cfg functionPath ys d b] rel s 3 by simp
  qed
  show ?thesis using c1 c2 c34 c5 by (intro conjI impI) auto
qed

text \<open>
  The theorem at the paths of the spec's examples: \<open>hello.ts\<close>, \<open>greet/index.ts\<close> and
  \<open>a/b/index.ts\<close>, and at two files that are no functions.
\<close>

theorem parseFunction_classifies_witness:
  "parseFunction ''/proj'' example_config ''app/functions/hello.ts''
     = Some \<lparr>path = ''app/functions/hello.ts'', name = ''hello''\<rparr>
   \<and> parseFunction ''/proj'' example_config ''app/functions/README.md'' = None
   \<and> parseFunction ''/proj'' example_config ''app/functions/greet/index.ts''
     = Some \<lparr>path = ''app/functions/greet/index.ts'', name = ''greet''\<rparr>
   \<and> parseFunction ''/proj'' example_config ''app/functions/greet/util.ts'' = None
   \<and> parseFunction ''/proj'' example_config ''app/functions/a/b/index.ts'' = None"
proof -
  have ab: "is_absolute ''/proj''" by (simp add: is_absolute_def)
  have r: "resolve_segs ''/proj'' [cwd example_config, functions_src example_config]
             = [''proj'', ''app'', ''functions'']" by code_simp
  have h1: "resolve_segs ''/proj'' [''app/functions/hello.ts'']
             = resolve_segs ''/proj'' [cwd example_config, functions_src example_config] @ [''hello.ts'']"
    unfolding r by code_simp
  have h2: "resolve_segs ''/proj'' [''app/functions/README.md'']
             = resolve_segs ''/proj'' [cwd example_config, functions_src example_config] @ [''README.md'']"
    unfolding r by code_simp
  have h3: "resolve_segs ''/proj'' [''app/functions/greet/index.ts'']
             = resolve_segs ''/proj'' [cwd example_config, functions_src example_config] @ [''greet'', ''index.ts'']"
    unfolding r by code_simp
  have h4: "resolve_segs ''/proj'' [''app/functions/greet/util.ts'']
             = resolve_segs ''/proj'' [cwd example_config, functions_src example_config] @ [''greet'', ''util.ts'']"
    unfolding r by code_simp
  have h5: "resolve_segs ''/proj'' [''app/functions/a/b/index.ts'']
             = resolve_segs ''/proj'' [cwd example_config, functions_src example_config] @ [''a'', ''b'', ''index.ts'']"
    unfolding r by code_simp
  have e1: "script_ext ''.ts''" by (simp add: script_ext_def)
  have l1: "\<not> list_ex line_terminator ''hello''" by code_simp
  have n2: "\<not> fnRegExp ''README.md''" by code_simp
  have i3: "indexRegExp ''index.ts''" by code_simp
  have i4: "\<not> indexRegExp ''util.ts''" by code_simp
  have p1: "relative ''/proj'' ''/proj'' ''app/functions/hello.ts'' = ''app/functions/hello.ts''" by code_simp
  have p3: "relative ''/proj'' ''/proj'' ''app/functions/greet/index.ts'' = ''app/functions/greet/index.ts''" by code_simp
  have c1: "parseFunction ''/proj'' example_config ''app/functions/hello.ts''
     = Some \<lparr>path = ''app/functions/hello.ts'', name = ''hello''\<rparr>"
    using parseFunction_classifies[OF ab h1, where stem="''hello''" and e="''.ts''"] e1 l1 p1 by simp
  have c2: "parseFunction ''/proj'' example_config ''app/functions/README.md'' = None"
    using parseFunction_classifies[OF ab h2, where b="''README.md''"] n2 by simp
  have c3: "parseFunction ''/proj'' example_config ''app/functions/greet/index.ts''
     = Some \<lparr>path = ''app/functions/greet/index.ts'', name = ''greet''\<rparr>"
    using parseFunction_classifies[OF ab h3, where d="''greet''" and b="''index.ts''"] i3 p3 by simp
  have c4: "parseFunction ''/proj'' example_config ''app/functions/greet/util.ts'' = None"
    using parseFunction_classifies[OF ab h4, where d="''greet''" and b="''util.ts''"] i4 by simp
  have c5: "parseFunction ''/proj'' example_config ''app/functions/a/b/index.ts'' = None"
    using parseFunction_classifies[OF ab h5] by simp
  show ?thesis using c1 c2 c3 c4 c5 by simp
qed

text \<open>
  Claim C1 as stated excludes the index module itself from the flat files; the pattern
  \<open>fnRegExp\<close> does not: \<open>index.ts\<close> directly under the root is the function \<open>index\<close>.
\<close>

theorem parseFunction_index_counterexample:
  "indexRegExp ''index.ts''
   \<and> parseFunction ''/proj'' example_config ''/proj/app/functions/index.ts''
       = Some \<lparr>path = ''app/functions/index.ts'', name = ''index''\<rparr>"
  by code_simp


section \<open>The Index Generator: claim C2\<close>

text \<open>
  Claim C2. \<open>stringifyFunctionsIndex\<close> returns the lines of \<open>index_lines\<close> joined by
  newlines, and these are exactly: the side-effect import of the init module when an init
  path is configured (a non-empty string), then for each function, in list order, the
  line that re-exports the default export of \<open>./<name>.cjs\<close> under the function's name,
  then the renderer line when the renderer flag is set. For the functions \<open>hello\<close> and
  \<open>greet\<close>, no init path and no renderer, the text is the two export lines with a newline
  between them.
\<close>

theorem stringifyFunctionsIndex_lines:
  \<open>stringifyFunctionsIndex list cfg = join ''\<newline>'' (index_lines list cfg)
   \<and> length (index_lines list cfg)
       = (if truthy (functionsInitPath (config cfg)) then 1 else 0) + length list
         + (if renderer cfg then 1 else 0)
   \<and> (truthy (functionsInitPath (config cfg)) \<longrightarrow> index_lines list cfg ! 0 = ''import "./init.cjs";'')
   \<and> (\<forall>i < length list.
         index_lines list cfg ! ((if truthy (functionsInitPath (config cfg)) then 1 else 0) + i)
         = ''export { default as '' @ name (list ! i) @ '' } from "./'' @ name (list ! i) @ ''.cjs";'')
   \<and> (renderer cfg \<longrightarrow> last (index_lines list cfg) = ''export { default as renderer } from "./renderer";'')
   \<and> (\<not> truthy (functionsInitPath (config cfg)) \<and> \<not> renderer cfg \<and> map name list = [''hello'', ''greet'']
        \<longrightarrow> stringifyFunctionsIndex list cfg
            = ''export { default as hello } from "./hello.cjs";\<newline>export { default as greet } from "./greet.cjs";'')\<close>
proof (intro conjI)
  show "stringifyFunctionsIndex list cfg = join ''\<newline>'' (index_lines list cfg)"
    by (simp add: stringifyFunctionsIndex_def)
  show "length (index_lines list cfg)
       = (if truthy (functionsInitPath (config cfg)) then 1 else 0) + length list
         + (if renderer cfg then 1 else 0)"
    by (simp add: index_lines_def)
  show \<open>truthy (functionsInitPath (config cfg)) \<longrightarrow> index_lines list cfg ! 0 = ''import "./init.cjs";''\<close>
    by (simp add: index_lines_def)
  show \<open>\<forall>i < length list.
         index_lines list cfg ! ((if truthy (functionsInitPath (config cfg)) then 1 else 0) + i)
         = ''export { default as '' @ name (list ! i) @ '' } from "./'' @ name (list ! i) @ ''.cjs";''\<close>
    by (simp add: index_lines_def nth_append)
  show \<open>renderer cfg \<longrightarrow> last (index_lines list cfg) = ''export { default as renderer } from "./renderer";''\<close>
    by (simp add: index_lines_def)
  show \<open>\<not> truthy (functionsInitPath (config cfg)) \<and> \<not> renderer cfg \<and> map name list = [''hello'', ''greet'']
        \<longrightarrow> stringifyFunctionsIndex list cfg
            = ''export { default as hello } from "./hello.cjs";\<newline>export { default as greet } from "./greet.cjs";''\<close>
  proof
    assume a: "\<not> truthy (functionsInitPath (config cfg)) \<and> \<not> renderer cfg \<and> map name list = [''hello'', ''greet'']"
    then obtain f g where l: "list = [f, g]" "name f = ''hello''" "name g = ''greet''" by auto
    show \<open>stringifyFunctionsIndex list cfg
            = ''export { default as hello } from "./hello.cjs";\<newline>export { default as greet } from "./greet.cjs";''\<close>
      using a l by (simp add: stringifyFunctionsIndex_def index_lines_def)
  qed
qed

text \<open>
  The theorem at the spec's scenario, and at a configuration with an init path and a
  renderer, where the line of the second function is the third line.
\<close>

theorem stringifyFunctionsIndex_lines_witness:
  \<open>stringifyFunctionsIndex
      [\<lparr>path = ''app/functions/hello.ts'', name = ''hello''\<rparr>,
       \<lparr>path = ''app/functions/greet/index.ts'', name = ''greet''\<rparr>] example_config
    = ''export { default as hello } from "./hello.cjs";\<newline>export { default as greet } from "./greet.cjs";''
   \<and> index_lines
      [\<lparr>path = ''app/functions/hello.ts'', name = ''hello''\<rparr>,
       \<lparr>path = ''app/functions/greet/index.ts'', name = ''greet''\<rparr>]
      (example_config\<lparr>renderer := True, config := (config example_config)\<lparr>functionsInitPath := Some ''app/functions/init.ts''\<rparr>\<rparr>)
      ! 2 = ''export { default as greet } from "./greet.cjs";''\<close>
proof -
  let ?l = "[\<lparr>path = ''app/functions/hello.ts'', name = ''hello''\<rparr>,
       \<lparr>path = ''app/functions/greet/index.ts'', name = ''greet''\<rparr>]"
  let ?c = "example_config\<lparr>renderer := True, config := (config example_config)\<lparr>functionsInitPath := Some ''app/functions/init.ts''\<rparr>\<rparr>"
  have 1: "\<not> truthy (functionsInitPath (config example_config)) \<and> \<not> renderer example_config
           \<and> map name ?l = [''hello'', ''greet'']"
    by (simp add: example_config_def truthy_def)
  have 2: "truthy (functionsInitPath (config ?c))" by (simp add: truthy_def)
  have 3: "(1::nat) < length ?l" by simp
  from stringifyFunctionsIndex_lines[of ?l example_config] 1
  have a: \<open>stringifyFunctionsIndex ?l example_config
    = ''export { default as hello } from "./hello.cjs";\<newline>export { default as greet } from "./greet.cjs";''\<close>
    by blast
  from stringifyFunctionsIndex_lines[of ?l ?c]
  have all: "\<forall>i < length ?l. index_lines ?l ?c ! ((if truthy (functionsInitPath (config ?c)) then 1 else 0) + i)
         = ''export { default as '' @ name (?l ! i) @ '' } from \"./'' @ name (?l ! i) @ ''.cjs\";''"
    by blast
  have "index_lines ?l ?c ! ((if truthy (functionsInitPath (config ?c)) then 1 else 0) + 1)
         = ''export { default as '' @ name (?l ! 1) @ '' } from \"./'' @ name (?l ! 1) @ ''.cjs\";''"
    using all 3 by blast
  then have b: \<open>index_lines ?l ?c ! 2 = ''export { default as greet } from "./greet.cjs";''\<close>
    using 2 by (simp add: numeral_2_eq_2)
  show ?thesis using a b by simp
qed

section \<open>The inclusion policy: claim C8\<close>







section \<open>The Function Registry: claims C4 and C10\<close>

lemma promise_all_isl: "isl (promise_all xs) \<longleftrightarrow> (\<exists>x \<in> set xs. isl x)"
  by (induction xs) (auto split: sum.splits)

lemma promise_all_Inr: "\<forall>x \<in> set xs. \<not> isl x \<Longrightarrow> promise_all xs = Inr (map projr xs)"
  by (induction xs) (auto split: sum.splits)

lemma findFunctionPath_isl:
  "isl (findFunctionPath pcwd fs wd p)
   \<longleftrightarrow> isl (fs_stat fs p) \<or> (fs_stat fs p = Inr True \<and> isl (fs_readdir fs p))"
  by (auto simp: findFunctionPath_def split: sum.splits option.splits)

lemma listFunctions_item_isl:
  "isl (listFunctions_item pcwd fs cfg itemPath)
   \<longleftrightarrow> isl (findFunctionPath pcwd fs (cwd cfg) (resolve pcwd [cwd cfg, functions_src cfg, itemPath]))"
  by (auto simp: listFunctions_item_def Let_def split: sum.splits)

text \<open>
  Claim C4, as amended. When the source root can be listed, \<open>listFunctions\<close> is all or
  nothing: a candidate fails exactly when its \<open>stat\<close> fails or it is a directory whose
  listing fails; if any candidate fails, \<open>listFunctions\<close> fails as a whole (its promise
  rejects, no function set is returned); if none fails, it returns the functions of all
  the candidates, in listing order.
\<close>

theorem listFunctions_all_or_nothing:
  assumes "fs_readdir fs (resolve pcwd [cwd cfg, functions_src cfg]) = Inr dir"
  shows "(isl (listFunctions_item pcwd fs cfg itemPath)
            \<longleftrightarrow> isl (fs_stat fs (resolve pcwd [cwd cfg, functions_src cfg, itemPath]))
                \<or> (fs_stat fs (resolve pcwd [cwd cfg, functions_src cfg, itemPath]) = Inr True
                   \<and> isl (fs_readdir fs (resolve pcwd [cwd cfg, functions_src cfg, itemPath]))))
       \<and> ((\<exists>item \<in> set dir. isl (listFunctions_item pcwd fs cfg item))
            \<longrightarrow> isl (listFunctions pcwd fs cfg))
       \<and> ((\<forall>item \<in> set dir. \<not> isl (listFunctions_item pcwd fs cfg item))
            \<longrightarrow> listFunctions pcwd fs cfg
                  = Inr (sweep (map (\<lambda>item. projr (listFunctions_item pcwd fs cfg item)) dir)))"
proof (intro conjI impI)
  show "isl (listFunctions_item pcwd fs cfg itemPath)
            \<longleftrightarrow> isl (fs_stat fs (resolve pcwd [cwd cfg, functions_src cfg, itemPath]))
                \<or> (fs_stat fs (resolve pcwd [cwd cfg, functions_src cfg, itemPath]) = Inr True
                   \<and> isl (fs_readdir fs (resolve pcwd [cwd cfg, functions_src cfg, itemPath])))"
    by (simp only: listFunctions_item_isl findFunctionPath_isl)
next
  assume "\<exists>item \<in> set dir. isl (listFunctions_item pcwd fs cfg item)"
  then have "isl (promise_all (map (listFunctions_item pcwd fs cfg) dir))"
    by (simp add: promise_all_isl)
  then obtain e where "promise_all (map (listFunctions_item pcwd fs cfg) dir) = Inl e"
    by (cases "promise_all (map (listFunctions_item pcwd fs cfg) dir)") auto
  then show "isl (listFunctions pcwd fs cfg)"
    using assms by (simp add: listFunctions_def)
next
  assume "\<forall>item \<in> set dir. \<not> isl (listFunctions_item pcwd fs cfg item)"
  then have "promise_all (map (listFunctions_item pcwd fs cfg) dir)
               = Inr (map projr (map (listFunctions_item pcwd fs cfg) dir))"
    by (intro promise_all_Inr) simp
  then show "listFunctions pcwd fs cfg
                  = Inr (sweep (map (\<lambda>item. projr (listFunctions_item pcwd fs cfg item)) dir))"
    using assms by (simp add: listFunctions_def comp_def)
qed

text \<open>
  The theorem on two filesystems: where every candidate can be read, the scan returns
  \<open>hello\<close> and \<open>greet\<close>; where \<open>broken.ts\<close> cannot be stat-ed, the scan fails.
\<close>

theorem listFunctions_all_or_nothing_witness:
  "listFunctions ''/proj'' example_fs example_config
     = Inr [\<lparr>path = ''app/functions/hello.ts'', name = ''hello''\<rparr>,
            \<lparr>path = ''app/functions/greet/index.ts'', name = ''greet''\<rparr>]
   \<and> isl (listFunctions ''/proj'' example_fs_broken example_config)"
proof -
  have r: "resolve ''/proj'' [cwd example_config, functions_src example_config] = ''/proj/app/functions''"
    by code_simp
  have d1: "fs_readdir example_fs (resolve ''/proj'' [cwd example_config, functions_src example_config])
              = Inr [''hello.ts'', ''greet'']"
    unfolding r by (simp add: example_fs_def)
  have d2: "fs_readdir example_fs_broken (resolve ''/proj'' [cwd example_config, functions_src example_config])
              = Inr [''hello.ts'', ''broken.ts'', ''greet'']"
    unfolding r by (simp add: example_fs_broken_def)
  have i1: "listFunctions_item ''/proj'' example_fs example_config ''hello.ts''
              = Inr (Some \<lparr>path = ''app/functions/hello.ts'', name = ''hello''\<rparr>)"
    by code_simp
  have i2: "listFunctions_item ''/proj'' example_fs example_config ''greet''
              = Inr (Some \<lparr>path = ''app/functions/greet/index.ts'', name = ''greet''\<rparr>)"
    by code_simp
  have i3: "isl (listFunctions_item ''/proj'' example_fs_broken example_config ''broken.ts'')"
    by code_simp
  have a: "listFunctions ''/proj'' example_fs example_config
     = Inr [\<lparr>path = ''app/functions/hello.ts'', name = ''hello''\<rparr>,
            \<lparr>path = ''app/functions/greet/index.ts'', name = ''greet''\<rparr>]"
    using listFunctions_all_or_nothing[OF d1] i1 i2 by simp
  have b: "isl (listFunctions ''/proj'' example_fs_broken example_config)"
    using listFunctions_all_or_nothing[OF d2] i3 by simp
  show ?thesis using a b by simp
qed

text \<open>
  Claim C4 as stated fails: one candidate whose \<open>stat\<close> fails makes the whole scan fail,
  although the other two candidates are functions.
\<close>

theorem listFunctions_skip_counterexample:
  "listFunctions_item ''/proj'' example_fs_broken example_config ''hello.ts''
     = Inr (Some \<lparr>path = ''app/functions/hello.ts'', name = ''hello''\<rparr>)
   \<and> listFunctions_item ''/proj'' example_fs_broken example_config ''broken.ts'' = Inl (Error ''ENOENT'')
   \<and> listFunctions_item ''/proj'' example_fs_broken example_config ''greet''
     = Inr (Some \<lparr>path = ''app/functions/greet/index.ts'', name = ''greet''\<rparr>)
   \<and> listFunctions ''/proj'' example_fs_broken example_config = Inl (Error ''ENOENT'')"
  by code_simp

text \<open>
  Claim C10 at a function directory whose name has a dot: \<open>listFunctions\<close> names the
  function by \<open>parse(itemPath).name\<close>, which drops \<open>.v1\<close> as an extension, and
  \<open>parseFunction\<close> names the same source file by the whole directory name.
\<close>

theorem listFunctions_parseFunction_names_differ:
  "listFunctions ''/proj'' example_fs_dotted example_config
     = Inr [\<lparr>path = ''app/functions/api.v1/index.ts'', name = ''api''\<rparr>]
   \<and> parseFunction ''/proj'' example_config ''app/functions/api.v1/index.ts''
     = Some \<lparr>path = ''app/functions/api.v1/index.ts'', name = ''api.v1''\<rparr>"
  by code_simp

section \<open>The Watch Event Router: claim C7\<close>

lemma on_all_not_initial: "\<forall>m \<in> set (on_all pcwd cfg n). \<not> is_initial m"
  by (auto simp: on_all_def is_initial_def split: chokidar_event.splits option.splits)

lemma concat_on_all_not_initial:
  "\<forall>m \<in> set (concat (map (on_all pcwd cfg) ns)). \<not> is_initial m"
  using on_all_not_initial by fastforce

text \<open>
  Claim C7, as amended. In every run of \<open>watchListFunction\<close> whose initial
  \<open>listFunctions\<close> fulfils, the first message passed to the callback is the initial
  message carrying that result, it is the only initial message, and every function or
  init message comes after it (the messages of the notifications, in arrival order). In
  a run whose initial \<open>listFunctions\<close> rejects, the promise of \<open>watchListFunction\<close> rejects
  and no message is ever passed to the callback.
\<close>

theorem watchListFunction_initial_first:
  "(listFunctions pcwd fs cfg = Inr fns \<longrightarrow>
      fst (watchListFunction pcwd fs cfg ns) = None
      \<and> snd (watchListFunction pcwd fs cfg ns) = Initial fns # concat (map (on_all pcwd cfg) ns)
      \<and> length (filter is_initial (snd (watchListFunction pcwd fs cfg ns))) = 1
      \<and> (\<forall>i < length (snd (watchListFunction pcwd fs cfg ns)).
            is_initial (snd (watchListFunction pcwd fs cfg ns) ! i) \<longleftrightarrow> i = 0))
   \<and> (listFunctions pcwd fs cfg = Inl e \<longrightarrow>
      watchListFunction pcwd fs cfg ns = (Some e, []))"
proof (intro conjI impI)
  assume l: "listFunctions pcwd fs cfg = Inr fns"
  let ?rest = "concat (map (on_all pcwd cfg) ns)"
  have w: "watchListFunction pcwd fs cfg ns = (None, Initial fns # ?rest)"
    using l by (simp add: watchListFunction_def)
  have nr: "\<forall>m \<in> set ?rest. \<not> is_initial m" by (rule concat_on_all_not_initial)
  show "fst (watchListFunction pcwd fs cfg ns) = None" using w by simp
  show "snd (watchListFunction pcwd fs cfg ns) = Initial fns # ?rest" using w by simp
  have "filter is_initial ?rest = []" using nr by (simp add: filter_empty_conv)
  then show "length (filter is_initial (snd (watchListFunction pcwd fs cfg ns))) = 1"
    using w by (simp add: is_initial_def)
  show "\<forall>i < length (snd (watchListFunction pcwd fs cfg ns)).
            is_initial (snd (watchListFunction pcwd fs cfg ns) ! i) \<longleftrightarrow> i = 0"
  proof (intro allI impI)
    fix i assume i: "i < length (snd (watchListFunction pcwd fs cfg ns))"
    show "is_initial (snd (watchListFunction pcwd fs cfg ns) ! i) \<longleftrightarrow> i = 0"
    proof (cases i)
      case 0 then show ?thesis using w by (simp add: is_initial_def)
    next
      case (Suc j)
      then have "j < length ?rest" using i w by simp
      then have "?rest ! j \<in> set ?rest" by (rule nth_mem)
      then have "\<not> is_initial (?rest ! j)" using nr by blast
      then show ?thesis using Suc w by simp
    qed
  qed
next
  assume "listFunctions pcwd fs cfg = Inl e"
  then show "watchListFunction pcwd fs cfg ns = (Some e, [])"
    by (simp add: watchListFunction_def)
qed

text \<open>
  The theorem on a run over \<open>example_fs\<close> with three notifications (a new function, a new
  directory, a change of \<open>greet\<close>), and on a run whose source root is missing.
\<close>

theorem watchListFunction_initial_first_witness:
  "snd (watchListFunction ''/proj'' example_fs example_config
          [(FileEvent Add, ''app/functions/bye.ts''), (AddDir, ''app/functions/more''),
           (FileEvent Change, ''app/functions/greet/index.ts'')])
     = [Initial [\<lparr>path = ''app/functions/hello.ts'', name = ''hello''\<rparr>,
                 \<lparr>path = ''app/functions/greet/index.ts'', name = ''greet''\<rparr>],
        FunctionMessage Add \<lparr>path = ''app/functions/bye.ts'', name = ''bye''\<rparr>,
        FunctionMessage Change \<lparr>path = ''app/functions/greet/index.ts'', name = ''greet''\<rparr>]
   \<and> snd (watchListFunction ''/proj'' example_fs_missing example_config
          [(FileEvent Add, ''app/functions/bye.ts'')]) = []"
proof -
  let ?ns = "[(FileEvent Add, ''app/functions/bye.ts''), (AddDir, ''app/functions/more''),
           (FileEvent Change, ''app/functions/greet/index.ts'')]"
  have l: "listFunctions ''/proj'' example_fs example_config
     = Inr [\<lparr>path = ''app/functions/hello.ts'', name = ''hello''\<rparr>,
            \<lparr>path = ''app/functions/greet/index.ts'', name = ''greet''\<rparr>]"
    by code_simp
  have m: "listFunctions ''/proj'' example_fs_missing example_config = Inl (Error ''ENOENT'')"
    by code_simp
  have o: "concat (map (on_all ''/proj'' example_config) ?ns)
     = [FunctionMessage Add \<lparr>path = ''app/functions/bye.ts'', name = ''bye''\<rparr>,
        FunctionMessage Change \<lparr>path = ''app/functions/greet/index.ts'', name = ''greet''\<rparr>]"
    by code_simp
  have a: "snd (watchListFunction ''/proj'' example_fs example_config ?ns)
     = [Initial [\<lparr>path = ''app/functions/hello.ts'', name = ''hello''\<rparr>,
                 \<lparr>path = ''app/functions/greet/index.ts'', name = ''greet''\<rparr>],
        FunctionMessage Add \<lparr>path = ''app/functions/bye.ts'', name = ''bye''\<rparr>,
        FunctionMessage Change \<lparr>path = ''app/functions/greet/index.ts'', name = ''greet''\<rparr>]"
    using watchListFunction_initial_first[of "''/proj''" example_fs example_config _ ?ns] l o by simp
  have b: "snd (watchListFunction ''/proj'' example_fs_missing example_config
          [(FileEvent Add, ''app/functions/bye.ts'')]) = []"
    using watchListFunction_initial_first[of "''/proj''" example_fs_missing example_config _ _ "Error ''ENOENT''"] m
    by simp
  show ?thesis using a b by simp
qed

text \<open>
  Claim C7 as stated fails for a run whose source root cannot be listed: the notification
  that follows is never delivered, and no initial message is delivered at all, where the
  claim says exactly one.
\<close>

theorem watchListFunction_no_initial_counterexample:
  "watchListFunction ''/proj'' example_fs_missing example_config
     [(FileEvent Add, ''app/functions/bye.ts'')] = (Some (Error ''ENOENT''), [])
   \<and> length (filter is_initial (snd (watchListFunction ''/proj'' example_fs_missing example_config
        [(FileEvent Add, ''app/functions/bye.ts'')]))) = 0"
  by code_simp

section \<open>The Module Resolver: claim C5\<close>

text \<open>
  Claim C5, as amended. \<open>onResolve\<close> returns the specifier itself, marked external,
  whatever the resolver would answer (the resolver is not consulted), if and only if the
  name of some builtin module is a prefix of the specifier. Otherwise it rejects if and
  only if the resolver reports an error or answers with no path: with the resolver's own
  error when the resolver gave one, and else with the error
  \<open>Cannot resolve <specifier> at <directory>\<close>; and when the resolver answers with a
  non-empty path, it returns that path, marked external exactly when the path contains
  \<open>node_modules\<close>.
\<close>

theorem onResolve_cases:
  "(list_ex (\<lambda>m. starts_with spec m) builtins
      \<longleftrightarrow> (\<forall>resolver. onResolve builtins resolver dir spec = Inr \<lparr>res_path = spec, res_external = True\<rparr>))
   \<and> (\<not> list_ex (\<lambda>m. starts_with spec m) builtins \<longrightarrow>
        (isl (onResolve builtins resolver dir spec)
           \<longleftrightarrow> fst (resolver dir spec) \<noteq> None \<or> \<not> truthy (snd (resolver dir spec))))
   \<and> (\<not> list_ex (\<lambda>m. starts_with spec m) builtins \<and> resolver dir spec = (None, Some r) \<and> r \<noteq> []
      \<longrightarrow> onResolve builtins resolver dir spec
            = Inr \<lparr>res_path = r, res_external = includes_str r ''node_modules''\<rparr>)
   \<and> (\<not> list_ex (\<lambda>m. starts_with spec m) builtins \<and> resolver dir spec = (Some err, x)
      \<longrightarrow> onResolve builtins resolver dir spec = Inl err)
   \<and> (\<not> list_ex (\<lambda>m. starts_with spec m) builtins \<and> resolver dir spec = (None, x) \<and> \<not> truthy x
      \<longrightarrow> onResolve builtins resolver dir spec
            = Inl (Error (''Cannot resolve '' @ spec @ '' at '' @ dir)))"
proof (intro conjI impI)
  show "list_ex (\<lambda>m. starts_with spec m) builtins
      \<longleftrightarrow> (\<forall>resolver. onResolve builtins resolver dir spec = Inr \<lparr>res_path = spec, res_external = True\<rparr>)"
  proof
    assume "list_ex (\<lambda>m. starts_with spec m) builtins"
    then show "\<forall>resolver. onResolve builtins resolver dir spec = Inr \<lparr>res_path = spec, res_external = True\<rparr>"
      by (simp add: onResolve_def)
  next
    assume a: "\<forall>resolver. onResolve builtins resolver dir spec = Inr \<lparr>res_path = spec, res_external = True\<rparr>"
    show "list_ex (\<lambda>m. starts_with spec m) builtins"
    proof (rule ccontr)
      assume n: "\<not> list_ex (\<lambda>m. starts_with spec m) builtins"
      have "onResolve builtins (\<lambda>d s. (None, None)) dir spec
              = Inl (Error (''Cannot resolve '' @ spec @ '' at '' @ dir))"
        using n by (simp add: onResolve_def truthy_def)
      then show False using a by simp
    qed
  qed
next
  assume n: "\<not> list_ex (\<lambda>m. starts_with spec m) builtins"
  obtain e x where r: "resolver dir spec = (e, x)" by (cases "resolver dir spec")
  show "isl (onResolve builtins resolver dir spec)
           \<longleftrightarrow> fst (resolver dir spec) \<noteq> None \<or> \<not> truthy (snd (resolver dir spec))"
    using n r by (simp add: onResolve_def del: includes_str.simps)
next
  assume "\<not> list_ex (\<lambda>m. starts_with spec m) builtins \<and> resolver dir spec = (None, Some r) \<and> r \<noteq> []"
  then show "onResolve builtins resolver dir spec
            = Inr \<lparr>res_path = r, res_external = includes_str r ''node_modules''\<rparr>"
    by (simp add: onResolve_def truthy_def del: includes_str.simps)
next
  assume "\<not> list_ex (\<lambda>m. starts_with spec m) builtins \<and> resolver dir spec = (Some err, x)"
  then show "onResolve builtins resolver dir spec = Inl err"
    by (simp add: onResolve_def)
next
  assume "\<not> list_ex (\<lambda>m. starts_with spec m) builtins \<and> resolver dir spec = (None, x) \<and> \<not> truthy x"
  then show "onResolve builtins resolver dir spec
            = Inl (Error (''Cannot resolve '' @ spec @ '' at '' @ dir))"
    by (simp add: onResolve_def)
qed

text \<open>
  The theorem at a builtin module, a local module, a package of \<open>node_modules\<close>, a
  specifier the resolver reports an error for, and a resolver that answers with nothing.
\<close>

theorem onResolve_cases_witness:
  "onResolve example_builtins example_resolver ''/proj/app/functions'' ''fs''
     = Inr \<lparr>res_path = ''fs'', res_external = True\<rparr>
   \<and> onResolve example_builtins example_resolver ''/proj/app/functions'' ''./helper''
     = Inr \<lparr>res_path = ''/proj/app/functions/helper.ts'', res_external = False\<rparr>
   \<and> onResolve example_builtins example_resolver ''/proj/app/functions'' ''lodash''
     = Inr \<lparr>res_path = ''/proj/node_modules/lodash/index.js'', res_external = True\<rparr>
   \<and> onResolve example_builtins example_resolver ''/proj/app/functions'' ''./missing''
     = Inl (Error ''Module not found'')
   \<and> onResolve example_builtins example_resolver_nothing ''/proj/app/functions'' ''lodash''
     = Inl (Error ''Cannot resolve lodash at /proj/app/functions'')"
proof -
  let ?d = "''/proj/app/functions''"
  have b1: "list_ex (\<lambda>m. starts_with ''fs'' m) example_builtins" by code_simp
  have b2: "\<not> list_ex (\<lambda>m. starts_with ''./helper'' m) example_builtins" by code_simp
  have b3: "\<not> list_ex (\<lambda>m. starts_with ''lodash'' m) example_builtins" by code_simp
  have b4: "\<not> list_ex (\<lambda>m. starts_with ''./missing'' m) example_builtins" by code_simp
  have r2: "example_resolver ?d ''./helper'' = (None, Some ''/proj/app/functions/helper.ts'')" by code_simp
  have r3: "example_resolver ?d ''lodash'' = (None, Some ''/proj/node_modules/lodash/index.js'')" by code_simp
  have r4: "example_resolver ?d ''./missing'' = (Some (Error ''Module not found''), None)" by code_simp
  have r5: "example_resolver_nothing ?d ''lodash'' = (None, None)" by code_simp
  have n2: "\<not> includes_str ''/proj/app/functions/helper.ts'' ''node_modules''" by code_simp
  have n3: "includes_str ''/proj/node_modules/lodash/index.js'' ''node_modules''" by code_simp
  have c1: "onResolve example_builtins example_resolver ?d ''fs'' = Inr \<lparr>res_path = ''fs'', res_external = True\<rparr>"
    using onResolve_cases[where spec="''fs''" and builtins=example_builtins and dir="?d"] b1 by blast
  have c2: "onResolve example_builtins example_resolver ?d ''./helper''
     = Inr \<lparr>res_path = ''/proj/app/functions/helper.ts'', res_external = False\<rparr>"
    using onResolve_cases[where spec="''./helper''" and builtins=example_builtins and dir="?d"
        and resolver=example_resolver and r="''/proj/app/functions/helper.ts''"]
      b2 r2 n2 by (simp del: includes_str.simps)
  have c3: "onResolve example_builtins example_resolver ?d ''lodash''
     = Inr \<lparr>res_path = ''/proj/node_modules/lodash/index.js'', res_external = True\<rparr>"
    using onResolve_cases[where spec="''lodash''" and builtins=example_builtins and dir="?d"
        and resolver=example_resolver and r="''/proj/node_modules/lodash/index.js''"]
      b3 r3 n3 by (simp del: includes_str.simps)
  have c4: "onResolve example_builtins example_resolver ?d ''./missing'' = Inl (Error ''Module not found'')"
    using onResolve_cases[where spec="''./missing''" and builtins=example_builtins and dir="?d"
        and resolver=example_resolver and err="Error ''Module not found''" and x=None]
      b4 r4 by blast
  have c5: "onResolve example_builtins example_resolver_nothing ?d ''lodash''
     = Inl (Error ''Cannot resolve lodash at /proj/app/functions'')"
    using onResolve_cases[where spec="''lodash''" and builtins=example_builtins and dir="?d"
        and resolver=example_resolver_nothing and x=None]
      b3 r5 by (simp add: truthy_def)
  show ?thesis using c1 c2 c3 c4 c5 by simp
qed

text \<open>
  Claim C5 as stated fails: \<open>fs-extra\<close> names no builtin module and the resolver finds it,
  yet it is returned unresolved, because the builtin name \<open>fs\<close> is a prefix of it. And a
  module of the project whose path merely contains \<open>node_modules\<close> is marked external.
\<close>

theorem onResolve_prefix_counterexample:
  "''fs-extra'' \<notin> set example_builtins
   \<and> example_resolver ''/proj/app/functions'' ''fs-extra''
       = (None, Some ''/proj/node_modules/fs-extra/index.js'')
   \<and> onResolve example_builtins example_resolver ''/proj/app/functions'' ''fs-extra''
       = Inr \<lparr>res_path = ''fs-extra'', res_external = True\<rparr>
   \<and> onResolve example_builtins example_resolver ''/proj/app/functions'' ''./node_modules_list''
       = Inr \<lparr>res_path = ''/proj/app/functions/node_modules_list.ts'', res_external = True\<rparr>"
  by code_simp

section \<open>Build units: claim C6\<close>

text \<open>
  Claim C6. esbuild is always called with \<open>write: false\<close>, so it never writes by itself;
  and when the \<open>rebuild()\<close> of a unit fails, the handler rejects with the build error
  before \<open>writeEsbuildFile\<close> is reached: the disk, and the rest of the state, are as
  before, so the output files written by the last successful build stay. This holds at
  the three places where the source calls \<open>rebuild()\<close>: the change of a function, the
  change of the init module, and the change of a dependency.
\<close>

theorem failed_rebuild_keeps_disk:
  "\<not> write_option (buildFile_options pcwd cfg props)
   \<and> (builds st (name fn) = Some b \<and> esbuild_rebuild esbuild (rebuild_handle b) = Inl e
        \<longrightarrow> on_function pcwd esbuild cfg Change fn st = (st, Some e)
            \<and> disk (fst (on_function pcwd esbuild cfg Change fn st)) = disk st
            \<and> disk (fst (on_message pcwd esbuild cfg (FunctionMessage Change fn) st)) = disk st)
   \<and> (initBuild st = Some b \<and> esbuild_rebuild esbuild (rebuild_handle b) = Inl e
        \<longrightarrow> on_init pcwd esbuild cfg Change st = (st, Some e)
            \<and> disk (fst (on_message pcwd esbuild cfg (InitMessage Change) st)) = disk st)
   \<and> (builds st f = Some b \<and> esbuild_rebuild esbuild (rebuild_handle b) = Inl e
        \<longrightarrow> on_dependency_change esbuild f st = (st, Some e)
            \<and> disk (fst (on_dependency_change esbuild f st)) = disk st)"
proof (intro conjI impI)
  show "\<not> write_option (buildFile_options pcwd cfg props)"
    by (simp add: buildFile_options_def)
next
  assume a: "builds st (name fn) = Some b \<and> esbuild_rebuild esbuild (rebuild_handle b) = Inl e"
  then show r: "on_function pcwd esbuild cfg Change fn st = (st, Some e)"
    by (simp add: on_function_def)
  then show "disk (fst (on_function pcwd esbuild cfg Change fn st)) = disk st" by simp
  show "disk (fst (on_message pcwd esbuild cfg (FunctionMessage Change fn) st)) = disk st"
    using r by (simp add: on_message_def)
next
  assume a: "initBuild st = Some b \<and> esbuild_rebuild esbuild (rebuild_handle b) = Inl e"
  then show r: "on_init pcwd esbuild cfg Change st = (st, Some e)"
    by (simp add: on_init_def)
  show "disk (fst (on_message pcwd esbuild cfg (InitMessage Change) st)) = disk st"
    using r by (simp add: on_message_def)
next
  assume a: "builds st f = Some b \<and> esbuild_rebuild esbuild (rebuild_handle b) = Inl e"
  then show r: "on_dependency_change esbuild f st = (st, Some e)"
    by (simp add: on_dependency_change_def)
  then show "disk (fst (on_dependency_change esbuild f st)) = disk st" by simp
qed

text \<open>
  The theorem on a state where \<open>hello.cjs\<close> holds \<open>v1\<close>: after a failed rebuild the file
  still holds \<open>v1\<close>, whereas a successful rebuild replaces it by \<open>v2\<close>.
\<close>

theorem failed_rebuild_keeps_disk_witness:
  "disk (fst (on_function ''/proj'' example_esbuild_failing example_config Change example_hello example_state))
     ''/proj/build/functions/hello.cjs'' = Some ''v1''
   \<and> snd (on_function ''/proj'' example_esbuild_failing example_config Change example_hello example_state)
     = Some (Error ''Build failed'')
   \<and> disk (fst (on_function ''/proj'' example_esbuild_ok example_config Change example_hello example_state))
     ''/proj/build/functions/hello.cjs'' = Some ''v2''"
proof -
  let ?b = "\<lparr>outputFiles = [\<lparr>out_path = ''/proj/build/functions/hello.cjs'', out_contents = ''v1''\<rparr>],
             rebuild_handle = 1\<rparr>"
  have h1: "builds example_state (name example_hello) = Some ?b"
    by (simp add: example_state_def example_hello_def)
  have h2: "esbuild_rebuild example_esbuild_failing (rebuild_handle ?b) = Inl (Error ''Build failed'')"
    by (simp add: example_esbuild_failing_def)
  have f: "on_function ''/proj'' example_esbuild_failing example_config Change example_hello example_state
             = (example_state, Some (Error ''Build failed''))"
    using failed_rebuild_keeps_disk[where st=example_state and fn=example_hello and b="?b"
        and esbuild=example_esbuild_failing and e="Error ''Build failed''" and pcwd="''/proj''"
        and cfg=example_config] h1 h2 by blast
  have d: "disk example_state ''/proj/build/functions/hello.cjs'' = Some ''v1''"
    by (simp add: example_state_def)
  have ok: "disk (fst (on_function ''/proj'' example_esbuild_ok example_config Change example_hello example_state))
     ''/proj/build/functions/hello.cjs'' = Some ''v2''"
    by (simp add: on_function_def example_state_def example_hello_def example_esbuild_ok_def
        writeEsbuildFile_def)
  show ?thesis using f d ok by simp
qed

section \<open>The consumer of the watch messages: claim C9\<close>






































section \<open>The Process Supervisor: claim C3\<close>

lemma sup_run_snoc: "sup_run (evs @ [ev]) st = sup_step ev (sup_run evs st)"
  by (simp add: sup_run_def)

lemma event_ok_set: "set p = set q \<Longrightarrow> event_ok p ev = event_ok q ev"
  by (cases ev) simp_all

lemma events_ok_snoc: "events_ok (evs @ [ev]) \<longleftrightarrow> event_ok evs ev \<and> events_ok evs"
  using event_ok_set[of "rev evs" evs ev] by (simp add: events_ok_def)

lemma exit_before_spawn: "events_ok evs \<Longrightarrow> ChildExit c \<in> set evs \<Longrightarrow> Spawn c \<in> set evs"
proof (induction evs rule: rev_induct)
  case Nil
  then show ?case by simp
next
  case (snoc ev evs)
  then have ok: "event_ok evs ev" "events_ok evs" by (simp_all add: events_ok_snoc)
  show ?case
  proof (cases "ev = ChildExit c")
    case True
    then show ?thesis using ok(1) by simp
  next
    case False
    then have "ChildExit c \<in> set evs" using snoc.prems(2) by simp
    then show ?thesis using snoc.IH ok(2) by simp
  qed
qed

lemma sup_step_exited: "exited st \<noteq> None \<Longrightarrow> sup_step ev st = st"
  by (simp add: sup_step_def)

lemma sup_step_stays_exited: "exited (sup_step ev st) = None \<Longrightarrow> exited st = None"
  using sup_step_exited[of st ev] by (cases "exited st") auto

lemma exitIfNoChildren_children: "children (exitIfNoChildren st) = children st"
  by (simp add: exitIfNoChildren_def)

lemma sup_step_children:
  assumes "exited st = None"
  shows "children (sup_step ev st) =
           (case ev of Spawn c \<Rightarrow> children st @ [c]
                     | ChildExit c \<Rightarrow> splice_child c (children st)
                     | Signal s \<Rightarrow> children st)"
  using assms
  by (cases ev)
     (simp_all add: sup_step_def addChild_def on_exit_def on_signal_def Let_def
        exitIfNoChildren_children)

lemma sup_step_exit:
  assumes "exited st = None" and "exited (sup_step ev st) \<noteq> None"
  shows "exited (sup_step ev st) = Some 0 \<and> children (sup_step ev st) = []"
  using assms
  by (cases ev)
     (auto simp: sup_step_def addChild_def on_exit_def on_signal_def Let_def exitIfNoChildren_def
        split: if_splits)

text \<open>
  While the process runs, \<open>children\<close> holds, without repetition, exactly the children
  spawned so far that have not reported their exit.
\<close>

lemma sup_children:
  assumes "events_ok evs" and "exited (sup_run evs sup_init) = None"
  shows "distinct (children (sup_run evs sup_init))
         \<and> set (children (sup_run evs sup_init)) = {c. Spawn c \<in> set evs \<and> ChildExit c \<notin> set evs}"
  using assms
proof (induction evs rule: rev_induct)
  case Nil
  then show ?case by (simp add: sup_run_def sup_init_def)
next
  case (snoc ev evs)
  let ?st = "sup_run evs sup_init"
  have ok: "event_ok evs ev" "events_ok evs" using snoc.prems(1) by (simp_all add: events_ok_snoc)
  have ne: "exited ?st = None"
    using snoc.prems(2) sup_step_stays_exited[of ev ?st] by (simp add: sup_run_snoc)
  have ih: "distinct (children ?st)"
    "set (children ?st) = {c. Spawn c \<in> set evs \<and> ChildExit c \<notin> set evs}"
    using snoc.IH[OF ok(2) ne] by simp_all
  have ch: "children (sup_run (evs @ [ev]) sup_init) =
           (case ev of Spawn c \<Rightarrow> children ?st @ [c]
                     | ChildExit c \<Rightarrow> splice_child c (children ?st)
                     | Signal s \<Rightarrow> children ?st)"
    unfolding sup_run_snoc using ne by (rule sup_step_children)
  show ?case
  proof (cases ev)
    case (Spawn c)
    have n1: "Spawn c \<notin> set evs" using ok(1) Spawn by simp
    then have n2: "ChildExit c \<notin> set evs" using exit_before_spawn[OF ok(2)] by blast
    have "c \<notin> set (children ?st)" using ih(2) n1 by simp
    then show ?thesis unfolding ch using Spawn ih n2 by auto
  next
    case (ChildExit c)
    have "Spawn c \<in> set evs" "ChildExit c \<notin> set evs" using ok(1) ChildExit by simp_all
    then have "c \<in> set (children ?st)" using ih(2) by simp
    then have "splice_child c (children ?st) = remove1 c (children ?st)"
      by (simp add: splice_child_def)
    then show ?thesis unfolding ch using ChildExit ih by auto
  next
    case (Signal s)
    then show ?thesis unfolding ch using ih by auto
  qed
qed

text \<open>
  Claim C3. (1) A termination signal received with no live child makes the handler call
  \<open>process.exit(0)\<close> at once, before any \<open>kill\<close>. (2) In every run, if the process exits
  at an event, the status is 0 and every child spawned before has reported its exit: with
  \<open>N\<close> live children the exit comes only after the \<open>N\<close> exit reports. (3) A termination
  signal received while the process runs, a second one while draining included, is
  forwarded to the children of the list at that moment and to no other, and these are
  children that were spawned and have not reported their exit; the next state is
  defined in every case (no handler fails).
\<close>

theorem supervisor_shutdown:
  "(children st = [] \<and> exited st = None \<longrightarrow>
      exited (on_signal sig st) = Some 0 \<and> killed (on_signal sig st) = killed st)
   \<and> (events_ok (evs @ [ev]) \<and> exited (sup_run evs sup_init) = None
       \<and> exited (sup_run (evs @ [ev]) sup_init) \<noteq> None \<longrightarrow>
      exited (sup_run (evs @ [ev]) sup_init) = Some 0
      \<and> (\<forall>c. Spawn c \<in> set (evs @ [ev]) \<longrightarrow> ChildExit c \<in> set (evs @ [ev])))
   \<and> (events_ok evs \<and> exited (sup_run evs sup_init) = None \<longrightarrow>
      killed (sup_run (evs @ [Signal sig]) sup_init)
        = killed (sup_run evs sup_init) @ map (\<lambda>c. (c, sig)) (children (sup_run evs sup_init))
      \<and> (\<forall>c \<in> set (children (sup_run evs sup_init)). Spawn c \<in> set evs \<and> ChildExit c \<notin> set evs))"
proof (intro conjI impI)
  assume a: "children st = [] \<and> exited st = None"
  then show "exited (on_signal sig st) = Some 0"
    by (simp add: on_signal_def exitIfNoChildren_def)
  show "killed (on_signal sig st) = killed st"
    using a by (simp add: on_signal_def exitIfNoChildren_def)
next
  assume a: "events_ok (evs @ [ev]) \<and> exited (sup_run evs sup_init) = None
       \<and> exited (sup_run (evs @ [ev]) sup_init) \<noteq> None"
  let ?st = "sup_run evs sup_init"
  have ok: "event_ok evs ev" "events_ok evs" using a by (simp_all add: events_ok_snoc)
  have ne: "exited ?st = None" using a by simp
  have ex: "exited (sup_step ev ?st) \<noteq> None" using a by (simp add: sup_run_snoc)
  have inv: "distinct (children ?st)"
    "set (children ?st) = {c. Spawn c \<in> set evs \<and> ChildExit c \<notin> set evs}"
    using sup_children[OF ok(2) ne] by simp_all
  have e0: "exited (sup_step ev ?st) = Some 0" and c0: "children (sup_step ev ?st) = []"
    using sup_step_exit[OF ne ex] by simp_all
  show "exited (sup_run (evs @ [ev]) sup_init) = Some 0"
    using e0 by (simp add: sup_run_snoc)
  have ch: "children (sup_step ev ?st) =
           (case ev of Spawn c \<Rightarrow> children ?st @ [c]
                     | ChildExit c \<Rightarrow> splice_child c (children ?st)
                     | Signal s \<Rightarrow> children ?st)"
    using ne by (rule sup_step_children)
  show "\<forall>c. Spawn c \<in> set (evs @ [ev]) \<longrightarrow> ChildExit c \<in> set (evs @ [ev])"
  proof (cases ev)
    case (Spawn c)
    then show ?thesis using ch c0 by simp
  next
    case (ChildExit c)
    have "Spawn c \<in> set evs" "ChildExit c \<notin> set evs" using ok(1) ChildExit by simp_all
    then have "c \<in> set (children ?st)" using inv(2) by simp
    then have "remove1 c (children ?st) = []"
      using ch c0 ChildExit by (simp add: splice_child_def)
    then have "set (children ?st) - {c} = {}"
      using inv(1) by (metis set_remove1_eq empty_set)
    then have "\<forall>d. Spawn d \<in> set evs \<and> ChildExit d \<notin> set evs \<longrightarrow> d = c"
      using inv(2) by auto
    then show ?thesis using ChildExit by auto
  next
    case (Signal s)
    then have "children ?st = []" using ch c0 by simp
    then have "\<forall>d. Spawn d \<in> set evs \<longrightarrow> ChildExit d \<in> set evs" using inv(2) by auto
    then show ?thesis using Signal by auto
  qed
next
  assume a: "events_ok evs \<and> exited (sup_run evs sup_init) = None"
  let ?st = "sup_run evs sup_init"
  have ne: "exited ?st = None" using a by simp
  show "killed (sup_run (evs @ [Signal sig]) sup_init)
        = killed ?st @ map (\<lambda>c. (c, sig)) (children ?st)"
    using ne
    by (simp add: sup_run_snoc sup_step_def on_signal_def Let_def exitIfNoChildren_def)
  show "\<forall>c \<in> set (children ?st). Spawn c \<in> set evs \<and> ChildExit c \<notin> set evs"
    using sup_children[of evs] a by simp
qed

text \<open>
  The theorem on a run with two children: a first signal is forwarded to both, the first
  child exits, a second signal is forwarded to the second child only, and the process
  exits with status 0 when the second child exits; and on a signal with no child.
\<close>

theorem supervisor_shutdown_witness:
  "exited (on_signal SIGINT sup_init) = Some 0
   \<and> exited (sup_run [Spawn 1, Spawn 2, Signal SIGINT, ChildExit 1, Signal SIGTERM] sup_init) = None
   \<and> exited (sup_run [Spawn 1, Spawn 2, Signal SIGINT, ChildExit 1, Signal SIGTERM, ChildExit 2] sup_init)
       = Some 0
   \<and> killed (sup_run [Spawn 1, Spawn 2, Signal SIGINT, ChildExit 1, Signal SIGTERM] sup_init)
       = [(1, SIGINT), (2, SIGINT), (2, SIGTERM)]"
proof -
  let ?e4 = "[Spawn 1, Spawn 2, Signal SIGINT, ChildExit 1]"
  let ?e5 = "[Spawn 1, Spawn 2, Signal SIGINT, ChildExit 1, Signal SIGTERM]"
  have i: "children sup_init = [] \<and> exited sup_init = None" by (simp add: sup_init_def)
  have c1: "exited (on_signal SIGINT sup_init) = Some 0"
    using supervisor_shutdown[where st=sup_init and sig=SIGINT] i by blast
  have ok4: "events_ok ?e4" by code_simp
  have ok6: "events_ok (?e5 @ [ChildExit 2])" by code_simp
  have r4: "exited (sup_run ?e4 sup_init) = None" by code_simp
  have r5: "exited (sup_run ?e5 sup_init) = None" by code_simp
  have r6: "exited (sup_run (?e5 @ [ChildExit 2]) sup_init) \<noteq> None" by code_simp
  have k4: "killed (sup_run ?e4 sup_init) = [(1, SIGINT), (2, SIGINT)]" by code_simp
  have ch4: "children (sup_run ?e4 sup_init) = [2]" by code_simp
  have c3: "exited (sup_run (?e5 @ [ChildExit 2]) sup_init) = Some 0"
    using supervisor_shutdown[where evs="?e5" and ev="ChildExit 2"] ok6 r5 r6 by blast
  have "killed (sup_run (?e4 @ [Signal SIGTERM]) sup_init)
        = killed (sup_run ?e4 sup_init) @ map (\<lambda>c. (c, SIGTERM)) (children (sup_run ?e4 sup_init))"
    using supervisor_shutdown[where evs="?e4" and sig=SIGTERM] ok4 r4 by blast
  then have c4: "killed (sup_run ?e5 sup_init) = [(1, SIGINT), (2, SIGINT), (2, SIGTERM)]"
    unfolding k4 ch4 by simp
  show ?thesis using c1 r5 c3 c4 by simp
qed

end
